theory Spec2Isabelle
  imports
    Main
    "HOL-Library.Char_ord"
    "HOL-Library.List_Lexorder"
    "HOL-Library.Sublist"
    "HOL-Library.Multiset"
    "HOL-Library.AList"
begin

section \<open>fatbox: the upload relay of server.go and its dedup store\<close>

text \<open>
  The handlers of \<^verbatim>\<open>server.go\<close> and the store functions of the database file are
  embedded as state-passing functions over a \<open>world\<close>: the two directories of transient
  storage (\<^verbatim>\<open>/tmp/uploads\<close>, \<^verbatim>\<open>/tmp/temp\<close>), the \<^verbatim>\<open>hash\<close> table and the
  list of requests the HTTP client was handed. Everything the program does not decide
  itself (whether a system call fails and with which text, the random UUID, the SHA-256
  function, what the backend answers, how the JSON decoder reads a body, how the
  library sorts a long slice) is read from an \<open>env\<close> record, so every early return of the
  source is a branch of the model. Go strings are byte strings: \<open>string\<close>.
  A Go \<^verbatim>\<open>error\<close> is modelled by its message.
\<close>

subsection \<open>Library functions the code calls\<close>

text \<open>\<^verbatim>\<open>strings.HasPrefix\<close> is \<^const>\<open>prefix\<close>; \<^verbatim>\<open>strings.TrimPrefix\<close>:\<close>

definition TrimPrefix :: "string \<Rightarrow> string \<Rightarrow> string" where
  "TrimPrefix s p = (if prefix p s then drop (length p) s else s)"

definition is_digit :: "char \<Rightarrow> bool" where
  "is_digit c \<longleftrightarrow> CHR ''0'' \<le> c \<and> c \<le> CHR ''9''"

definition digit_val :: "char \<Rightarrow> int" where
  "digit_val c = int (of_char c) - 48"

definition digits_val :: "string \<Rightarrow> int" where
  "digits_val ds = foldl (\<lambda>n c. n * 10 + digit_val c) 0 ds"

text \<open>
  \<^verbatim>\<open>strconv.Atoi\<close> on a 64-bit platform (the image is built from golang:1.24-alpine):
  an optional sign, then at least one decimal digit and nothing else, and the value
  must fit \<^verbatim>\<open>int64\<close>. \<open>None\<close> stands for a non-nil error (syntax or range).
\<close>

definition Atoi :: "string \<Rightarrow> int option" where
  "Atoi s =
     (let neg = (s \<noteq> [] \<and> hd s = CHR ''-'');
          ds = (if s \<noteq> [] \<and> (hd s = CHR ''-'' \<or> hd s = CHR ''+'') then tl s else s);
          n = digits_val ds
      in if ds = [] \<or> \<not> list_all is_digit ds then None
         else if neg then (if n \<le> 2 ^ 63 then Some (- n) else None)
         else (if n < 2 ^ 63 then Some n else None))"

text \<open>\<^verbatim>\<open>%d\<close> of \<^verbatim>\<open>fmt\<close>: the decimal digits, with a minus sign for a negative number.\<close>

fun show_nat :: "nat \<Rightarrow> string" where
  "show_nat n =
     (if n < 10 then [char_of (48 + n)]
      else show_nat (n div 10) @ [char_of (48 + n mod 10)])"

declare show_nat.simps [simp del]

definition show_int :: "int \<Rightarrow> string" where
  "show_int i = (if i < 0 then CHR ''-'' # show_nat (nat (- i)) else show_nat (nat i))"

text \<open>
  \<^verbatim>\<open>filepath.Ext\<close>: the suffix that starts at the last dot of the last path element,
  empty when that element has no dot.
\<close>

fun Ext_rev :: "string \<Rightarrow> string \<Rightarrow> string" where
  "Ext_rev [] acc = []"
| "Ext_rev (c # cs) acc =
     (if c = CHR ''/'' then []
      else if c = CHR ''.'' then c # acc
      else Ext_rev cs (c # acc))"

definition filepath_Ext :: "string \<Rightarrow> string" where
  "filepath_Ext path = Ext_rev (rev path) []"

text \<open>
  \<^verbatim>\<open>filepath.Clean\<close> on Unix, read element by element (\<open>path_elems\<close> splits at the
  separator): an empty element and \<^verbatim>\<open>.\<close> are dropped; \<^verbatim>\<open>..\<close> removes the element
  before it, is dropped at the root of a rooted path and is kept at the start of a
  relative one; what is left is joined with single separators, and an empty result is
  \<^verbatim>\<open>.\<close>. \<open>out\<close> is the cleaned prefix, last element first.
\<close>

fun path_elems :: "string \<Rightarrow> string list" where
  "path_elems [] = [[]]"
| "path_elems (c # cs) =
     (if c = CHR ''/'' then [] # path_elems cs
      else (case path_elems cs of [] \<Rightarrow> [[c]] | e # es \<Rightarrow> (c # e) # es))"

fun clean_elems :: "bool \<Rightarrow> string list \<Rightarrow> string list \<Rightarrow> string list" where
  "clean_elems rooted out [] = rev out"
| "clean_elems rooted out (e # es) =
     (if e = [] \<or> e = ''.'' then clean_elems rooted out es
      else if e = ''..'' then
        (if out \<noteq> [] \<and> hd out \<noteq> ''..'' then clean_elems rooted (tl out) es
         else if rooted then clean_elems rooted out es
         else clean_elems rooted (e # out) es)
      else clean_elems rooted (e # out) es)"

text \<open>\<^verbatim>\<open>strings.Join(elems, "/")\<close>\<close>

fun join_sep :: "string list \<Rightarrow> string" where
  "join_sep [] = []"
| "join_sep [e] = e"
| "join_sep (e # es) = e @ CHR ''/'' # join_sep es"

definition filepath_Clean :: "string \<Rightarrow> string" where
  "filepath_Clean path =
     (if path = [] then ''.''
      else
        (let rooted = (hd path = CHR ''/'');
             out = join_sep (clean_elems rooted [] (path_elems path))
         in if rooted then CHR ''/'' # out else if out = [] then ''.'' else out))"

text \<open>
  \<^verbatim>\<open>filepath.Join\<close>: the elements from the first non-empty one on, joined with the
  separator and cleaned; the empty string when there is none.
\<close>

definition filepath_Join :: "string list \<Rightarrow> string" where
  "filepath_Join elem =
     (case dropWhile (\<lambda>e. e = []) elem of
        [] \<Rightarrow> []
      | e # es \<Rightarrow> filepath_Clean (join_sep (e # es)))"

text \<open>
  \<^verbatim>\<open>filepath.Base\<close>: trailing separators are stripped and the last element is returned;
  \<^verbatim>\<open>.\<close> for the empty path, the separator for a path of separators only.
\<close>

definition filepath_Base :: "string \<Rightarrow> string" where
  "filepath_Base path =
     (let stripped = dropWhile (\<lambda>c. c = CHR ''/'') (rev path);
          base = rev (takeWhile (\<lambda>c. c \<noteq> CHR ''/'') stripped)
      in if path = [] then ''.'' else if base = [] then ''/'' else base)"

subsection \<open>\<^verbatim>\<open>sort.Slice\<close>\<close>

text \<open>
  \<^verbatim>\<open>sort.Slice(x, less)\<close> runs \<^verbatim>\<open>pdqsort_func(data, 0, n, limit)\<close>, which for a
  range of at most 12 elements is
  \<^verbatim>\<open>
  func insertionSort_func(data lessSwap, a, b int) {
      for i := a + 1; i < b; i++ {
          for j := i; j > a && data.Less(j, j-1); j-- {
              data.Swap(j, j-1)
          }
      }
  }
  \<close>
  The closure of \<^verbatim>\<open>assembleChunks\<close> reads \<^verbatim>\<open>chunks[i]\<close> and \<^verbatim>\<open>chunks[j]\<close> of the
  slice being sorted, so the comparison (\<open>lt\<close>) is a relation on the elements. A longer slice goes
  through the pattern-defeating quicksort proper, which is library code and is a
  parameter here (\<open>pdq\<close>).
\<close>

definition swap :: "'a list \<Rightarrow> nat \<Rightarrow> nat \<Rightarrow> 'a list" where
  "swap xs i j = xs[i := xs ! j, j := xs ! i]"

fun insertion_inner :: "('a \<Rightarrow> 'a \<Rightarrow> bool) \<Rightarrow> 'a list \<Rightarrow> nat \<Rightarrow> 'a list" where
  "insertion_inner lt xs j =
     (if 0 < j \<and> lt (xs ! j) (xs ! (j - 1))
      then insertion_inner lt (swap xs j (j - 1)) (j - 1)
      else xs)"

declare insertion_inner.simps [simp del]

definition insertionSort_func :: "('a \<Rightarrow> 'a \<Rightarrow> bool) \<Rightarrow> 'a list \<Rightarrow> 'a list" where
  "insertionSort_func lt xs = foldl (insertion_inner lt) xs [1..<length xs]"

definition sort_Slice ::
  "(('a \<Rightarrow> 'a \<Rightarrow> bool) \<Rightarrow> 'a list \<Rightarrow> 'a list) \<Rightarrow> ('a \<Rightarrow> 'a \<Rightarrow> bool) \<Rightarrow> 'a list \<Rightarrow> 'a list" where
  "sort_Slice pdq lt xs =
     (if length xs \<le> 12 then insertionSort_func lt xs else pdq lt xs)"


definition sorts_by_key :: "(('a \<Rightarrow> 'a \<Rightarrow> bool) \<Rightarrow> 'a list \<Rightarrow> 'a list) \<Rightarrow> bool" where
  "sorts_by_key srt \<longleftrightarrow>
     (\<forall>lt (key :: 'a \<Rightarrow> int) xs.
        (\<forall>a\<in>set xs. \<forall>b\<in>set xs. lt a b \<longleftrightarrow> key a < key b) \<longrightarrow>
        mset (srt lt xs) = mset xs \<and> sorted (map key (srt lt xs)))"

subsection \<open>The chunk comparison of \<^verbatim>\<open>assembleChunks\<close>\<close>

definition chunk_index :: "string \<Rightarrow> int option" where
  "chunk_index name = Atoi (TrimPrefix name ''chunk_'')"

text \<open>
  \<^verbatim>\<open>
  ni, errI := strconv.Atoi(strings.TrimPrefix(chunks[i], "chunk_"))
  nj, errJ := strconv.Atoi(strings.TrimPrefix(chunks[j], "chunk_"))
  if errI != nil || errJ != nil { return false }
  return ni < nj
  \<close>
\<close>

definition chunk_less :: "string \<Rightarrow> string \<Rightarrow> bool" where
  "chunk_less a b =
     (case chunk_index a of
        None \<Rightarrow> False
      | Some ni \<Rightarrow> (case chunk_index b of None \<Rightarrow> False | Some nj \<Rightarrow> ni < nj))"

subsection \<open>Transient storage, the dedup table and the outside world\<close>

text \<open>
  A session directory \<^verbatim>\<open>/tmp/uploads/<uploadId>\<close> is the list of its entries, one per
  name; a file of \<^verbatim>\<open>/tmp/temp\<close> is found by its name. The store is keyed by the
  names as the client gives them: by the upload id, by \<^verbatim>\<open>chunk_<index>\<close>, by
  \<^verbatim>\<open><uuid>-<filename>\<close>. This is the file system of the program exactly when such a
  name is a single path element (not empty, without a separator, neither \<^verbatim>\<open>.\<close> nor
  \<^verbatim>\<open>..\<close>): then \<^verbatim>\<open>filepath.Join\<close> only puts the directory in front of it
  (\<open>chunk_dir_single_element\<close>, \<open>chunk_path_single_element\<close>,
  \<open>final_path_single_element\<close> below). For any other name \<^verbatim>\<open>filepath.Join\<close> cleans the
  path into another place: a deeper directory, one of the two directories themselves,
  their parents, or a file of another session. The paths the code computes are
  \<open>chunk_dir\<close>, \<open>chunk_path\<close> and \<open>final_path\<close>; the store does not follow a name to
  such a place, it keeps the entry under the name as given, apart from the others.
  A subdirectory of a session directory is a \<open>Dir\<close> entry, which is all
  \<^verbatim>\<open>assembleChunks\<close> asks of it (\<^verbatim>\<open>e.IsDir()\<close>).
  \<open>sent\<close> lists the requests handed to the HTTP client, oldest first.
\<close>

datatype node = File string | Dir

type_synonym dir = "(string \<times> node) list"

record request =
  req_url :: string
  req_fields :: "(string \<times> string) list"
  req_file_field :: string
  req_filename :: string
  req_body :: string

text \<open>
  \<^verbatim>\<open>FileHashRecord\<close>: an \<^verbatim>\<open>sql.NullString\<close> is \<open>None\<close> when it is not \<^verbatim>\<open>Valid\<close>.
  A row of the table \<^verbatim>\<open>hash\<close> is its two nullable columns \<^verbatim>\<open>(catbox, pomf)\<close>.
\<close>

record FileHashRecord =
  Hash :: string
  CatboxURL :: "string option"
  PomfURL :: "string option"

record world =
  uploads :: "string \<rightharpoonup> dir"
  temp :: "string \<rightharpoonup> string"
  db :: "string \<rightharpoonup> string option \<times> string option"
  sent :: "request list"

text \<open>
  The answers of the operating system, the libraries and the network during one request.
  An \<open>_err\<close> field is \<open>None\<close> when the call succeeds and \<open>Some text\<close> when it returns an
  error with that text; a failing \<^verbatim>\<open>io.Copy\<close> also says how many bytes it wrote first.
  For \<^verbatim>\<open>os.Open\<close> and \<^verbatim>\<open>os.Create\<close> (\<open>Create_chunk_err\<close>, \<open>Create_final_err\<close>,
  \<open>Open_chunk_err\<close>, \<open>Create_temp_err\<close>, \<open>Open_hash_err\<close>) the text is the reason alone,
  as in \<^verbatim>\<open>permission denied\<close>: the path in front of it is the program's.
  The two deferred removals of the handlers can fail like every other call, and the
  code discards their errors: \<open>Remove_err\<close> is the error of \<^verbatim>\<open>os.Remove\<close>, and
  \<open>RemoveAll_err\<close> is \<open>Some names\<close> when \<^verbatim>\<open>os.RemoveAll\<close> fails, having removed what it
  could: the directory stays, with those of its entries whose name is in \<open>names\<close>.
  \<open>client_Do\<close> is \<^verbatim>\<open>client.Do\<close> followed by \<^verbatim>\<open>io.ReadAll(resp.Body)\<close>: a transport
  error, or the status code with the body (or the error of reading it).
  \<open>json_Unmarshal\<close> decodes a pomf answer into \<^verbatim>\<open>(Success, the URLs of Files, Error)\<close>.
\<close>

record env =
  uuid_New :: string
  pdqsort :: "(string \<Rightarrow> string \<Rightarrow> bool) \<Rightarrow> string list \<Rightarrow> string list"
  sha256_hex :: "string \<Rightarrow> string"
  json_Unmarshal :: "string \<Rightarrow> string + bool \<times> string list \<times> string"
  client_Do :: "request \<Rightarrow> string + int \<times> (string + string)"
  MkdirAll_err :: "string option"
  Create_chunk_err :: "string option"
  Copy_chunk_err :: "(nat \<times> string) option"
  ReadDir_err :: "string option"
  Create_final_err :: "string option"
  Open_chunk_err :: "string \<Rightarrow> string option"
  Copy_final_err :: "string \<Rightarrow> (nat \<times> string) option"
  Create_temp_err :: "string option"
  Copy_temp_err :: "(nat \<times> string) option"
  Close_temp_err :: "string option"
  Open_hash_err :: "string option"
  Copy_hash_err :: "string option"
  stream_err :: "string option"
  Query_err :: "string option"
  Exec_err :: "string option"
  Remove_err :: "string option"
  RemoveAll_err :: "string list option"

datatype response =
    HttpError string nat
  | Json "(string \<times> string) list"

definition uploadsDir :: string where "uploadsDir = ''/tmp/uploads''"
definition tempDir :: string where "tempDir = ''/tmp/temp''"

text \<open>
  The error of \<^verbatim>\<open>os.Open\<close>, \<^verbatim>\<open>os.Create\<close> and \<^verbatim>\<open>os.ReadDir\<close> on a path reads
  \<^verbatim>\<open>open <path>: <reason>\<close>; \<open>ENOENT\<close> is the one for a path that does not exist.
\<close>

definition open_error :: "string \<Rightarrow> string \<Rightarrow> string" where
  "open_error path reason = ''open '' @ path @ '': '' @ reason"

definition ENOENT :: "string \<Rightarrow> string" where
  "ENOENT path = ''open '' @ path @ '': no such file or directory''"

text \<open>
  The paths the code computes: \<^verbatim>\<open>chunkDir := filepath.Join(uploadsDir, uploadId)\<close>
  (\<^verbatim>\<open>uploadPath\<close> in \<^verbatim>\<open>chunkHandler\<close>), \<^verbatim>\<open>chunkPath := filepath.Join(chunkDir, chunkName)\<close>
  and \<^verbatim>\<open>finalPath := filepath.Join(tempDir, uniqueFinalName)\<close> with
  \<^verbatim>\<open>uniqueFinalName := fmt.Sprintf("%s-%s", uuid.New().String(), filename)\<close>.
\<close>

definition chunk_dir :: "string \<Rightarrow> string" where
  "chunk_dir uploadId = filepath_Join [uploadsDir, uploadId]"

definition chunk_path :: "string \<Rightarrow> string \<Rightarrow> string" where
  "chunk_path uploadId chunkName = filepath_Join [chunk_dir uploadId, chunkName]"

definition final_path :: "env \<Rightarrow> string \<Rightarrow> string" where
  "final_path env filename = filepath_Join [tempDir, uuid_New env @ ''-'' @ filename]"

text \<open>
  \<^verbatim>\<open>defer os.RemoveAll(chunkDir)\<close>: the error is discarded. \<^verbatim>\<open>os.RemoveAll\<close> returns
  \<^verbatim>\<open>nil\<close> for a path that does not exist.
\<close>

definition os_RemoveAll :: "env \<Rightarrow> string \<Rightarrow> world \<Rightarrow> world" where
  "os_RemoveAll env uploadId w =
     (case uploads w uploadId of
        None \<Rightarrow> w
      | Some d \<Rightarrow>
          (case RemoveAll_err env of
             None \<Rightarrow> w\<lparr>uploads := (uploads w)(uploadId := None)\<rparr>
           | Some names \<Rightarrow>
               w\<lparr>uploads := (uploads w)(uploadId \<mapsto> filter (\<lambda>e. fst e \<in> set names) d)\<rparr>))"

text \<open>\<^verbatim>\<open>defer os.Remove(path)\<close> on a file of \<^verbatim>\<open>/tmp/temp\<close>: the error is discarded.\<close>

definition os_Remove :: "env \<Rightarrow> string \<Rightarrow> world \<Rightarrow> world" where
  "os_Remove env name w =
     (case Remove_err env of
        None \<Rightarrow> w\<lparr>temp := (temp w)(name := None)\<rparr>
      | Some e \<Rightarrow> w)"

text \<open>\<^verbatim>\<open>os.ReadDir\<close> returns the entries of the directory sorted by file name.\<close>

definition os_ReadDir :: "env \<Rightarrow> world \<Rightarrow> string \<Rightarrow> string + (string \<times> node) list" where
  "os_ReadDir env w uploadId =
     (case uploads w uploadId of
        None \<Rightarrow> Inl (ENOENT (chunk_dir uploadId))
      | Some d \<Rightarrow>
          (case ReadDir_err env of
             Some e \<Rightarrow> Inl e
           | None \<Rightarrow> Inr (sort_key fst d)))"

definition IsDir :: "string \<times> node \<Rightarrow> bool" where
  "IsDir e \<longleftrightarrow> snd e = Dir"

definition write_temp :: "string \<Rightarrow> string \<Rightarrow> world \<Rightarrow> world" where
  "write_temp name bytes w =
     w\<lparr>temp := (temp w)(name \<mapsto> (case temp w name of None \<Rightarrow> [] | Some old \<Rightarrow> old) @ bytes)\<rparr>"

subsection \<open>The dedup store: \<^verbatim>\<open>GetURLsByHash\<close>, \<^verbatim>\<open>storeUrl\<close>\<close>

definition GetURLsByHash :: "env \<Rightarrow> world \<Rightarrow> string \<Rightarrow> string + FileHashRecord" where
  "GetURLsByHash env w hash =
     (case Query_err env of
        Some e \<Rightarrow> Inl (''database query failed: '' @ e)
      | None \<Rightarrow>
          (case db w hash of
             None \<Rightarrow> Inr \<lparr>Hash = hash, CatboxURL = None, PomfURL = None\<rparr>
           | Some (c, p) \<Rightarrow> Inr \<lparr>Hash = hash, CatboxURL = c, PomfURL = p\<rparr>))"

text \<open>\<^verbatim>\<open>INSERT ... ON CONFLICT (hash) DO UPDATE SET col = EXCLUDED.col\<close> on one column.\<close>

definition upsert_catbox :: "string \<Rightarrow> (string option \<times> string option) option \<Rightarrow> string option \<times> string option" where
  "upsert_catbox url row = (case row of None \<Rightarrow> (Some url, None) | Some (c, p) \<Rightarrow> (Some url, p))"

definition upsert_pomf :: "string \<Rightarrow> (string option \<times> string option) option \<Rightarrow> string option \<times> string option" where
  "upsert_pomf url row = (case row of None \<Rightarrow> (None, Some url) | Some (c, p) \<Rightarrow> (c, Some url))"

definition db_Exec ::
  "env \<Rightarrow> world \<Rightarrow> string \<Rightarrow> ((string option \<times> string option) option \<Rightarrow> string option \<times> string option)
     \<Rightarrow> string option \<times> world" where
  "db_Exec env w hash f =
     (case Exec_err env of
        Some e \<Rightarrow> (Some (''database insert/update failed: '' @ e), w)
      | None \<Rightarrow> (None, w\<lparr>db := (db w)(hash \<mapsto> f (db w hash))\<rparr>))"

definition storeUrl :: "env \<Rightarrow> world \<Rightarrow> string \<Rightarrow> string \<Rightarrow> string \<Rightarrow> string option \<times> world" where
  "storeUrl env w hash destination url =
     (if destination = ''catbox'' then db_Exec env w hash (upsert_catbox url)
      else if destination = ''pomf'' then db_Exec env w hash (upsert_pomf url)
      else (Some (''cannot store URL for unsupported destination: '' @ destination), w))"

subsection \<open>\<^verbatim>\<open>calculateFileHash\<close> and \<^verbatim>\<open>forwardToDestination\<close>\<close>

definition calculateFileHash :: "env \<Rightarrow> world \<Rightarrow> string \<Rightarrow> string + string" where
  "calculateFileHash env w filePath =
     (case temp w filePath of
        None \<Rightarrow> Inl (ENOENT (tempDir @ ''/'' @ filePath))
      | Some bytes \<Rightarrow>
          (case Open_hash_err env of
             Some e \<Rightarrow> Inl (open_error (tempDir @ ''/'' @ filePath) e)
           | None \<Rightarrow>
               (case Copy_hash_err env of
                  Some e \<Rightarrow> Inl e
                | None \<Rightarrow> Inr (sha256_hex env bytes))))"

definition urlMap :: "string \<rightharpoonup> string" where
  "urlMap =
     [''pomf'' \<mapsto> ''https://pomf.lain.la/upload.php'',
      ''catbox'' \<mapsto> ''https://catbox.moe/user/api.php'',
      ''litterbox'' \<mapsto> ''https://litterbox.catbox.moe/resources/internals/api.php'']"

text \<open>
  The body the goroutine writes into the pipe: the \<^verbatim>\<open>switch destination\<close> of the
  source gives the form fields written before the file part and the name of that part.
  Only a destination of \<open>urlMap\<close> gets as far as a request.
\<close>

definition form_fields :: "string \<Rightarrow> string \<Rightarrow> string \<Rightarrow> (string \<times> string) list" where
  "form_fields destination userhash timeVal =
     (if destination = ''pomf'' then []
      else if destination = ''catbox'' \<or> destination = ''litterbox'' then
        [(''reqtype'', ''fileupload'')]
        @ (if destination = ''catbox'' \<and> userhash \<noteq> [] then [(''userhash'', userhash)] else [])
        @ (if destination = ''litterbox'' then [(''time'', timeVal)] else [])
      else [])"

definition file_field :: "string \<Rightarrow> string" where
  "file_field destination = (if destination = ''pomf'' then ''files[]'' else ''fileToUpload'')"

definition build_request :: "string \<Rightarrow> string \<Rightarrow> string \<Rightarrow> string \<Rightarrow> string \<Rightarrow> string \<Rightarrow> request" where
  "build_request url destination filename userhash timeVal bytes =
     \<lparr>req_url = url, req_fields = form_fields destination userhash timeVal,
      req_file_field = file_field destination, req_filename = filename, req_body = bytes\<rparr>"

text \<open>
  A failure inside the goroutine (the file cannot be opened, a part cannot be written)
  closes the pipe with an error, and \<^verbatim>\<open>client.Do\<close> returns it, wrapped as
  \<^verbatim>\<open>Post "<url>": ...\<close>: no request is logged then. \<^verbatim>\<open>http.NewRequest\<close> cannot fail
  on the three constant URLs.
\<close>

definition parse_response :: "env \<Rightarrow> string \<Rightarrow> int \<Rightarrow> string \<Rightarrow> string + string" where
  "parse_response env destination status respBody =
     (if status \<noteq> 200
      then Inl (''upload failed with status '' @ show_int status @ '': '' @ respBody)
      else if destination = ''pomf'' then
        (case json_Unmarshal env respBody of
           Inl e \<Rightarrow> Inl (''failed to parse pomf response: '' @ e)
         | Inr (success, files, error) \<Rightarrow>
             if \<not> success then Inl (''pomf upload failed: '' @ error)
             else if 0 < length files then Inr (hd files)
             else Inl ''pomf response missing file URL'')
      else Inr respBody)"

definition forwardToDestination ::
  "env \<Rightarrow> world \<Rightarrow> string \<Rightarrow> string \<Rightarrow> string \<Rightarrow> string \<Rightarrow> string \<Rightarrow> (string + string) \<times> world" where
  "forwardToDestination env w destination filePath filename userhash timeVal =
     (case urlMap destination of
        None \<Rightarrow> (Inl (''destination '' @ [CHR 0x27] @ destination @ [CHR 0x27] @ '' is not supported''), w)
      | Some url \<Rightarrow>
          (case temp w filePath of
             None \<Rightarrow> (Inl (''http request failed: Post '' @ [CHR 0x22] @ url @ [CHR 0x22]
                             @ '': failed to open file for streaming: ''
                             @ ENOENT (tempDir @ ''/'' @ filePath)), w)
           | Some bytes \<Rightarrow>
               (case stream_err env of
                  Some e \<Rightarrow> (Inl (''http request failed: '' @ e), w)
                | None \<Rightarrow>
                    (let req = build_request url destination filename userhash timeVal bytes;
                         w1 = w\<lparr>sent := sent w @ [req]\<rparr>
                     in case client_Do env req of
                          Inl e \<Rightarrow> (Inl (''http request failed: '' @ e), w1)
                        | Inr (status, Inl e) \<Rightarrow> (Inl (''failed to read response body: '' @ e), w1)
                        | Inr (status, Inr respBody) \<Rightarrow>
                            (parse_response env destination status respBody, w1)))))"

subsection \<open>\<^verbatim>\<open>processAndForwardFile\<close>\<close>

definition cached_url :: "string \<Rightarrow> FileHashRecord \<Rightarrow> string" where
  "cached_url destination record =
     (if destination = ''catbox'' \<and> CatboxURL record \<noteq> None
        then (case CatboxURL record of Some u \<Rightarrow> u | None \<Rightarrow> [])
      else if destination = ''pomf'' \<and> PomfURL record \<noteq> None
        then (case PomfURL record of Some u \<Rightarrow> u | None \<Rightarrow> [])
      else [])"

definition processAndForwardFile ::
  "env \<Rightarrow> world \<Rightarrow> string \<Rightarrow> string \<Rightarrow> string \<Rightarrow> string \<Rightarrow> string \<Rightarrow> response \<times> world" where
  "processAndForwardFile env w filePath filename userhash destination timeVal =
     (if destination = ''litterbox'' then
        (case forwardToDestination env w destination filePath filename userhash timeVal of
           (Inl err, w1) \<Rightarrow> (HttpError (''Upload failed: '' @ err) 500, w1)
         | (Inr url, w1) \<Rightarrow> (Json [(''url'', url)], w1))
      else
        (case calculateFileHash env w filePath of
           Inl err \<Rightarrow> (HttpError ''Failed to calculate file hash'' 500, w)
         | Inr hash \<Rightarrow>
             (case GetURLsByHash env w hash of
                Inl err \<Rightarrow> (HttpError ''Internal Server Error'' 500, w)
              | Inr record \<Rightarrow>
                  if cached_url destination record \<noteq> []
                  then (Json [(''url'', cached_url destination record)], w)
                  else
                    (case forwardToDestination env w destination filePath filename userhash timeVal of
                       (Inl err, w1) \<Rightarrow> (HttpError (''Upload failed: '' @ err) 500, w1)
                     | (Inr url, w1) \<Rightarrow>
                         (Json [(''url'', url)], snd (storeUrl env w1 hash destination url))))))"

subsection \<open>\<^verbatim>\<open>chunkHandler\<close>\<close>

text \<open>
  The form of a chunk upload as the handler reads it: the error of
  \<^verbatim>\<open>ParseMultipartForm\<close> if any, the two form values (empty when absent) and the
  bytes of the part \<^verbatim>\<open>chunk\<close> if there is one.
\<close>

record chunk_request =
  c_parse_err :: "string option"
  c_uploadId :: string
  c_index :: string
  c_chunk :: "string option"

definition os_MkdirAll :: "string \<Rightarrow> world \<Rightarrow> world" where
  "os_MkdirAll uploadId w =
     (case uploads w uploadId of
        None \<Rightarrow> w\<lparr>uploads := (uploads w)(uploadId \<mapsto> [])\<rparr>
      | Some d \<Rightarrow> w)"

definition session_dir :: "world \<Rightarrow> string \<Rightarrow> dir" where
  "session_dir w uploadId = (case uploads w uploadId of None \<Rightarrow> [] | Some d \<Rightarrow> d)"

definition write_chunk :: "string \<Rightarrow> string \<Rightarrow> string \<Rightarrow> world \<Rightarrow> world" where
  "write_chunk uploadId name bytes w =
     w\<lparr>uploads := (uploads w)(uploadId \<mapsto> AList.update name (File bytes) (session_dir w uploadId))\<rparr>"

text \<open>
  \<^verbatim>\<open>os.Create(chunkPath)\<close> fails when the environment says so, and when the name is taken
  by a directory.
\<close>

definition os_Create_chunk :: "env \<Rightarrow> world \<Rightarrow> string \<Rightarrow> string \<Rightarrow> string option" where
  "os_Create_chunk env w uploadId name =
     (case Create_chunk_err env of
        Some e \<Rightarrow> Some e
      | None \<Rightarrow>
          if map_of (session_dir w uploadId) name = Some Dir
          then Some (''open '' @ chunk_path uploadId name @ '': is a directory'')
          else None)"

text \<open>\<^verbatim>\<open>fmt.Sprintf("chunk_%s", index)\<close>\<close>

definition chunk_name :: "string \<Rightarrow> string" where
  "chunk_name index = ''chunk_'' @ index"

definition chunkHandler :: "env \<Rightarrow> world \<Rightarrow> chunk_request \<Rightarrow> response \<times> world" where
  "chunkHandler env w r =
     (case c_parse_err r of
        Some e \<Rightarrow> (HttpError (''Invalid form: '' @ e) 400, w)
      | None \<Rightarrow>
          if c_uploadId r = [] \<or> c_index r = []
          then (HttpError ''Missing uploadId or index'' 400, w)
          else
            (case c_chunk r of
               None \<Rightarrow> (HttpError ''Missing chunk file'' 400, w)
             | Some bytes \<Rightarrow>
                 (case MkdirAll_err env of
                    Some e \<Rightarrow> (HttpError ''Failed to create upload directory'' 500, w)
                  | None \<Rightarrow>
                      (let w1 = os_MkdirAll (c_uploadId r) w;
                           name = chunk_name (c_index r)
                       in case os_Create_chunk env w1 (c_uploadId r) name of
                            Some e \<Rightarrow> (HttpError ''Failed to save chunk'' 500, w1)
                          | None \<Rightarrow>
                              (case Copy_chunk_err env of
                                 Some (n, e) \<Rightarrow>
                                   (HttpError ''Failed to write chunk to disk'' 500,
                                    write_chunk (c_uploadId r) name (take n bytes) w1)
                               | None \<Rightarrow>
                                   (Json [(''message'',
                                       ''Chunk '' @ c_index r @ '' for '' @ c_uploadId r @ '' received.'')],
                                    write_chunk (c_uploadId r) name bytes w1))))))"

subsection \<open>\<^verbatim>\<open>assembleChunks\<close>\<close>

definition chunk_names :: "(string \<times> node) list \<Rightarrow> string list" where
  "chunk_names entries = map fst (filter (\<lambda>e. \<not> IsDir e \<and> prefix ''chunk_'' (fst e)) entries)"

definition os_Open_chunk :: "env \<Rightarrow> world \<Rightarrow> string \<Rightarrow> string \<Rightarrow> string + string" where
  "os_Open_chunk env w uploadId chunkName =
     (case Open_chunk_err env chunkName of
        Some e \<Rightarrow> Inl (open_error (chunk_path uploadId chunkName) e)
      | None \<Rightarrow>
          (case map_of (session_dir w uploadId) chunkName of
             Some (File bytes) \<Rightarrow> Inr bytes
           | _ \<Rightarrow> Inl (ENOENT (chunk_path uploadId chunkName))))"

text \<open>The loop \<^verbatim>\<open>for _, chunkName := range chunks\<close>, with its two early returns.\<close>

fun copy_chunks :: "env \<Rightarrow> string \<Rightarrow> string \<Rightarrow> string list \<Rightarrow> world \<Rightarrow> (string + string) \<times> world" where
  "copy_chunks env uploadId final [] w = (Inr final, w)"
| "copy_chunks env uploadId final (chunkName # chunks) w =
     (case os_Open_chunk env w uploadId chunkName of
        Inl e \<Rightarrow> (Inl (''error opening chunk '' @ chunkName @ '' for reading: '' @ e), w)
      | Inr bytes \<Rightarrow>
          (case Copy_final_err env chunkName of
             Some (n, e) \<Rightarrow>
               (Inl (''error writing chunk '' @ chunkName @ '' to final file: '' @ e),
                write_temp final (take n bytes) w)
           | None \<Rightarrow> copy_chunks env uploadId final chunks (write_temp final bytes w)))"

definition assembleChunks :: "env \<Rightarrow> world \<Rightarrow> string \<Rightarrow> string \<Rightarrow> (string + string) \<times> world" where
  "assembleChunks env w uploadId filename =
     (case os_ReadDir env w uploadId of
        Inl e \<Rightarrow> (Inl (''no chunks found for '' @ filepath_Base (chunk_dir uploadId) @ '': '' @ e), w)
      | Inr entries \<Rightarrow>
          (let chunks = sort_Slice (pdqsort env) chunk_less (chunk_names entries);
               uniqueFinalName = uuid_New env @ ''-'' @ filename
           in case Create_final_err env of
                Some e \<Rightarrow>
                  (Inl (''failed to create final file: '' @ open_error (final_path env filename) e), w)
              | None \<Rightarrow>
                  copy_chunks env uploadId uniqueFinalName chunks
                    (w\<lparr>temp := (temp w)(uniqueFinalName \<mapsto> [])\<rparr>)))"

subsection \<open>\<^verbatim>\<open>finishHandler\<close> and \<^verbatim>\<open>directHandler\<close>\<close>

text \<open>The form values of a finish request, as \<^verbatim>\<open>r.FormValue\<close> gives them (empty when absent).\<close>

record finish_request =
  f_uploadId :: string
  f_filename :: string
  f_userhash :: string
  f_destination :: string
  f_time :: string

text \<open>
  The two \<^verbatim>\<open>defer\<close>s run when the handler returns, last registered first:
  \<^verbatim>\<open>os.Remove(finalPath)\<close> (registered only after \<^verbatim>\<open>assembleChunks\<close> returned no error),
  then \<^verbatim>\<open>os.RemoveAll(chunkDir)\<close> (registered after the check of the form values).
\<close>

definition finishHandler :: "env \<Rightarrow> world \<Rightarrow> finish_request \<Rightarrow> response \<times> world" where
  "finishHandler env w r =
     (let timeVal = (if f_time r = [] then ''1h'' else f_time r)
      in if f_uploadId r = [] \<or> f_filename r = [] \<or> f_destination r = []
         then (HttpError ''Missing uploadId, filename, or destination'' 400, w)
         else
           (case assembleChunks env w (f_uploadId r) (f_filename r) of
              (Inl err, w1) \<Rightarrow> (HttpError err 500, os_RemoveAll env (f_uploadId r) w1)
            | (Inr finalPath, w1) \<Rightarrow>
                (case processAndForwardFile env w1 finalPath (f_filename r) (f_userhash r)
                        (f_destination r) timeVal of
                   (resp, w2) \<Rightarrow>
                     (resp, os_RemoveAll env (f_uploadId r) (os_Remove env finalPath w2)))))"

text \<open>
  A direct upload: the error of \<^verbatim>\<open>ParseMultipartForm\<close> if any, the part \<^verbatim>\<open>file\<close>
  (its \<^verbatim>\<open>header.Filename\<close> and bytes) if there is one, and three form values.
\<close>

record direct_request =
  d_parse_err :: "string option"
  d_file :: "(string \<times> string) option"
  d_destination :: string
  d_time :: string
  d_userhash :: string

definition directHandler :: "env \<Rightarrow> world \<Rightarrow> direct_request \<Rightarrow> response \<times> world" where
  "directHandler env w r =
     (case d_parse_err r of
        Some e \<Rightarrow> (HttpError (''Invalid form: '' @ e) 400, w)
      | None \<Rightarrow>
          (case d_file r of
             None \<Rightarrow> (HttpError ''Missing file'' 400, w)
           | Some (headerFilename, bytes) \<Rightarrow>
               (let uniqueFilename = uuid_New env @ filepath_Ext headerFilename
                in case Create_temp_err env of
                     Some e \<Rightarrow> (HttpError ''Failed to save temporary file'' 500, w)
                   | None \<Rightarrow>
                       (case Copy_temp_err env of
                          Some (n, e) \<Rightarrow>
                            (HttpError ''Failed to write file to disk'' 500,
                             os_Remove env uniqueFilename
                               (w\<lparr>temp := (temp w)(uniqueFilename \<mapsto> take n bytes)\<rparr>))
                        | None \<Rightarrow>
                            (let w1 = w\<lparr>temp := (temp w)(uniqueFilename \<mapsto> bytes)\<rparr>
                             in case Close_temp_err env of
                                  Some e \<Rightarrow>
                                    (HttpError ''Failed to finalize temporary file'' 500,
                                     os_Remove env uniqueFilename w1)
                                | None \<Rightarrow>
                                    (let timeVal = (if d_time r = [] then ''1h'' else d_time r)
                                     in case processAndForwardFile env w1 uniqueFilename headerFilename
                                               (d_userhash r) (d_destination r) timeVal of
                                          (resp, w2) \<Rightarrow> (resp, os_Remove env uniqueFilename w2)))))))"

subsection \<open>Notions the properties are stated with\<close>

text \<open>
  The insertion sort as a function on lists: \<open>ins\<close> is one run of the inner loop on the
  reversed sorted prefix, \<open>isort_acc\<close> the outer loop.
\<close>

fun ins :: "('a \<Rightarrow> 'a \<Rightarrow> bool) \<Rightarrow> 'a \<Rightarrow> 'a list \<Rightarrow> 'a list" where
  "ins lt x [] = [x]"
| "ins lt x (y # ys) = (if lt x y then y # ins lt x ys else x # y # ys)"

fun isort_acc :: "('a \<Rightarrow> 'a \<Rightarrow> bool) \<Rightarrow> 'a list \<Rightarrow> 'a list \<Rightarrow> 'a list" where
  "isort_acc lt racc [] = rev racc"
| "isort_acc lt racc (x # xs) = isort_acc lt (ins lt x racc) xs"

definition insR :: "('a \<Rightarrow> int) \<Rightarrow> 'a \<Rightarrow> 'a list \<Rightarrow> 'a list" where
  "insR key x S = takeWhile (\<lambda>y. key y \<le> key x) S @ x # dropWhile (\<lambda>y. key y \<le> key x) S"

text \<open>
  Sorting between the unordered elements: every element with \<open>U\<close> stays where it is, and
  each maximal run of elements without \<open>U\<close> between two of them is sorted by \<open>key\<close>
  (stably) on its own. \<open>run\<close> collects the current run.
\<close>

fun sort_runs :: "('a \<Rightarrow> bool) \<Rightarrow> ('a \<Rightarrow> int) \<Rightarrow> 'a list \<Rightarrow> 'a list \<Rightarrow> 'a list" where
  "sort_runs U key run [] = sort_key key run"
| "sort_runs U key run (x # xs) =
     (if U x then sort_key key run @ x # sort_runs U key [] xs
      else sort_runs U key (run @ [x]) xs)"

text \<open>
  A name that is a single path element: \<^verbatim>\<open>filepath.Join\<close> only puts the directory in
  front of it.
\<close>

definition single_element :: "string \<Rightarrow> bool" where
  "single_element n \<longleftrightarrow> n \<noteq> [] \<and> n \<noteq> ''.'' \<and> n \<noteq> ''..'' \<and> CHR ''/'' \<notin> set n"

definition unparseable :: "string \<Rightarrow> bool" where
  "unparseable name \<longleftrightarrow> chunk_index name = None"

definition chunk_key :: "string \<Rightarrow> int" where
  "chunk_key name = (case chunk_index name of None \<Rightarrow> 0 | Some n \<Rightarrow> n)"

definition index_of :: "string \<Rightarrow> int" where
  "index_of i = (case Atoi i of None \<Rightarrow> 0 | Some n \<Rightarrow> n)"

definition chunk_bytes :: "dir \<Rightarrow> string \<Rightarrow> string" where
  "chunk_bytes d name = (case map_of d name of Some (File bytes) \<Rightarrow> bytes | _ \<Rightarrow> [])"

text \<open>No system call of \<^verbatim>\<open>chunkHandler\<close>, respectively \<^verbatim>\<open>assembleChunks\<close>, fails.\<close>

definition chunk_ok :: "env \<Rightarrow> bool" where
  "chunk_ok env \<longleftrightarrow> MkdirAll_err env = None \<and> Create_chunk_err env = None \<and> Copy_chunk_err env = None"

definition assemble_ok :: "env \<Rightarrow> bool" where
  "assemble_ok env \<longleftrightarrow>
     ReadDir_err env = None \<and> Create_final_err env = None
     \<and> (\<forall>c. Open_chunk_err env c = None) \<and> (\<forall>c. Copy_final_err env c = None)"

text \<open>The directory entry a successful upload of \<open>(index, bytes)\<close> creates.\<close>

definition chunk_entry :: "string \<times> string \<Rightarrow> string \<times> node" where
  "chunk_entry ib = (chunk_name (fst ib), File (snd ib))"

text \<open>A client that uploads the chunks \<open>(index, bytes)\<close> of one session, in the order of the list.\<close>

definition chunk_upload :: "string \<Rightarrow> string \<times> string \<Rightarrow> chunk_request" where
  "chunk_upload uploadId ib =
     \<lparr>c_parse_err = None, c_uploadId = uploadId, c_index = fst ib, c_chunk = Some (snd ib)\<rparr>"

definition upload_chunks :: "env \<Rightarrow> world \<Rightarrow> string \<Rightarrow> (string \<times> string) list \<Rightarrow> world" where
  "upload_chunks env w uploadId ups =
     foldl (\<lambda>w ib. snd (chunkHandler env w (chunk_upload uploadId ib))) w ups"

subsection \<open>An environment and a store to run the model on\<close>

text \<open>
  \<open>env0\<close>: no system call fails, the backend answers 200 with a URL, and the insertion
  sort stands in for the library's sort of long slices. \<open>world0\<close>: nothing stored yet.
\<close>

definition env0 :: env where
  "env0 =
     \<lparr>uuid_New = ''u'', pdqsort = insertionSort_func, sha256_hex = (\<lambda>bytes. ''sha:'' @ bytes),
      json_Unmarshal = (\<lambda>body. Inl ''invalid character''),
      client_Do = (\<lambda>req. Inr (200, Inr ''https://files.example/abc'')),
      MkdirAll_err = None, Create_chunk_err = None, Copy_chunk_err = None,
      ReadDir_err = None, Create_final_err = None,
      Open_chunk_err = (\<lambda>c. None), Copy_final_err = (\<lambda>c. None),
      Create_temp_err = None, Copy_temp_err = None, Close_temp_err = None,
      Open_hash_err = None, Copy_hash_err = None, stream_err = None,
      Query_err = None, Exec_err = None, Remove_err = None, RemoveAll_err = None\<rparr>"

definition world0 :: world where
  "world0 = \<lparr>uploads = Map.empty, temp = Map.empty, db = Map.empty, sent = []\<rparr>"

text \<open>A session \<^verbatim>\<open>s\<close> that holds the two chunks 0 and 1.\<close>

definition two_chunks :: world where
  "two_chunks = world0\<lparr>uploads := [''s'' \<mapsto> [(''chunk_0'', File ''A''), (''chunk_1'', File ''B'')]]\<rparr>"

text \<open>
  A session whose chunks were uploaded with the indices \<^verbatim>\<open>2\<close>, \<^verbatim>\<open>10\<close> and \<^verbatim>\<open>1a\<close>, in
  this order.
\<close>

definition out_of_order :: dir where
  "out_of_order = [(''chunk_2'', File ''A''), (''chunk_10'', File ''B''), (''chunk_1a'', File ''X'')]"

section \<open>Properties\<close>

subsection \<open>Paths of single elements\<close>

lemma path_elems_single: "CHR ''/'' \<notin> set n \<Longrightarrow> path_elems n = [n]"
  by (induction n) auto

lemma path_elems_append:
  "CHR ''/'' \<notin> set a \<Longrightarrow> path_elems (a @ CHR ''/'' # b) = a # path_elems b"
  by (induction a) auto

lemma chunk_dir_single_element:
  "single_element uploadId \<Longrightarrow> chunk_dir uploadId = uploadsDir @ ''/'' @ uploadId"
  by (simp add: chunk_dir_def filepath_Join_def filepath_Clean_def uploadsDir_def single_element_def
      path_elems_single Let_def)

lemma chunk_path_single_element:
  "single_element uploadId \<Longrightarrow> single_element chunkName \<Longrightarrow>
   chunk_path uploadId chunkName = uploadsDir @ ''/'' @ uploadId @ ''/'' @ chunkName"
  by (simp add: chunk_path_def chunk_dir_single_element filepath_Join_def filepath_Clean_def
      uploadsDir_def single_element_def path_elems_single path_elems_append Let_def)

lemma final_path_single_element:
  "single_element (uuid_New env @ ''-'' @ filename) \<Longrightarrow>
   final_path env filename = tempDir @ ''/'' @ uuid_New env @ ''-'' @ filename"
  by (simp add: final_path_def filepath_Join_def filepath_Clean_def
      tempDir_def single_element_def path_elems_single Let_def)

lemma filepath_Base_last:
  assumes "n \<noteq> []" and "CHR ''/'' \<notin> set n"
  shows "filepath_Base (d @ CHR ''/'' # n) = n"
proof -
  have 1: "dropWhile (\<lambda>c. c = CHR ''/'') (rev n @ CHR ''/'' # rev d) = rev n @ CHR ''/'' # rev d"
    using assms by (cases "rev n") (auto simp: rev_is_Nil_conv dest: arg_cong[where f=set])
  have 2: "takeWhile (\<lambda>c. c \<noteq> CHR ''/'') (rev n @ CHR ''/'' # rev d) = rev n"
    using assms(2) by (subst takeWhile_append2) auto
  show ?thesis
    using assms(1) by (simp add: filepath_Base_def Let_def 1 2)
qed

lemma filepath_Base_chunk_dir:
  "single_element uploadId \<Longrightarrow> filepath_Base (chunk_dir uploadId) = uploadId"
  using filepath_Base_last[of uploadId uploadsDir]
  by (simp add: chunk_dir_single_element single_element_def)

subsection \<open>The insertion sort of \<^verbatim>\<open>sort.Slice\<close>\<close>

lemma length_ins [simp]: "length (ins lt x ys) = Suc (length ys)"
  by (induction ys) auto

lemma mset_ins [simp]: "mset (ins lt x ys) = add_mset x (mset ys)"
  by (induction ys) auto

lemma insertion_inner_ins:
  "insertion_inner lt (rev racc @ x # post) (length racc) = rev (ins lt x racc) @ post"
proof (induction racc arbitrary: post)
  case Nil
  show ?case by (simp add: insertion_inner.simps)
next
  case (Cons y ys)
  have nth1: "(rev ys @ y # x # post) ! Suc (length ys) = x"
    by (metis length_rev nth_append_length append.assoc append_Cons append_Nil length_append_singleton)
  have nth0: "(rev ys @ y # x # post) ! length ys = y"
    by (metis length_rev nth_append_length)
  have sw: "swap (rev ys @ y # x # post) (Suc (length ys)) (length ys) = rev ys @ x # y # post"
    unfolding swap_def using nth0 nth1
    by (simp add: list_update_append nth_append)
  show ?case
  proof (cases "lt x y")
    case True
    then show ?thesis
      using Cons.IH[of "y # post"] sw nth0 nth1
      by (subst insertion_inner.simps) simp
  next
    case False
    then show ?thesis
      using nth0 nth1 by (subst insertion_inner.simps) simp
  qed
qed

lemma foldl_inner_isort:
  "foldl (insertion_inner lt) (rev racc @ rest) [length racc ..< length racc + length rest]
     = isort_acc lt racc rest"
proof (induction rest arbitrary: racc)
  case Nil
  show ?case by simp
next
  case (Cons x xs)
  have "[length racc ..< length racc + length (x # xs)]
        = length racc # [Suc (length racc) ..< Suc (length racc) + length xs]"
    by (simp add: upt_rec)
  then show ?case
    using Cons.IH[of "ins lt x racc"] by (simp add: insertion_inner_ins)
qed

lemma insertionSort_func_isort: "insertionSort_func lt xs = isort_acc lt [] xs"
proof (cases xs)
  case Nil
  then show ?thesis by (simp add: insertionSort_func_def)
next
  case (Cons x r)
  show ?thesis
    using foldl_inner_isort[of lt "[x]" r] Cons
    by (simp add: insertionSort_func_def)
qed

lemma mset_isort_acc: "mset (isort_acc lt racc xs) = mset racc + mset xs"
  by (induction xs arbitrary: racc) auto

lemma mset_insertionSort_func [simp]: "mset (insertionSort_func lt xs) = mset xs"
  by (simp add: insertionSort_func_isort mset_isort_acc)

lemma ins_cong:
  "(\<And>y. y \<in> set ys \<Longrightarrow> lt x y = lt' x y) \<Longrightarrow> ins lt x ys = ins lt' x ys"
  by (induction ys) auto

lemma set_ins [simp]: "set (ins lt x ys) = insert x (set ys)"
  by (induction ys) auto

lemma isort_acc_cong:
  "(\<And>a b. a \<in> set racc \<union> set xs \<Longrightarrow> b \<in> set racc \<union> set xs \<Longrightarrow> lt a b = lt' a b)
   \<Longrightarrow> isort_acc lt racc xs = isort_acc lt' racc xs"
proof (induction xs arbitrary: racc)
  case Nil
  show ?case by simp
next
  case (Cons x xs)
  have "ins lt x racc = ins lt' x racc"
    by (rule ins_cong) (simp add: Cons.prems)
  moreover have "isort_acc lt (ins lt' x racc) xs = isort_acc lt' (ins lt' x racc) xs"
    by (rule Cons.IH) (use Cons.prems in auto)
  ultimately show ?case by simp
qed

lemma insertionSort_func_cong:
  "(\<And>a b. a \<in> set xs \<Longrightarrow> b \<in> set xs \<Longrightarrow> lt a b = lt' a b)
   \<Longrightarrow> insertionSort_func lt xs = insertionSort_func lt' xs"
  using isort_acc_cong[of "[]" xs lt lt'] by (simp add: insertionSort_func_isort)

lemma insR_snoc:
  assumes "sorted (map key (S @ [s]))"
  shows "insR key x (S @ [s]) = (if key x < key s then insR key x S @ [s] else S @ [s, x])"
proof (cases "key x < key s")
  case True
  show ?thesis
  proof (cases "\<forall>y\<in>set S. key y \<le> key x")
    case all: True
    have 1: "takeWhile (\<lambda>y. key y \<le> key x) S = S" "dropWhile (\<lambda>y. key y \<le> key x) S = []"
      using all by simp_all
    have 2: "takeWhile (\<lambda>y. key y \<le> key x) (S @ [s]) = S"
      "dropWhile (\<lambda>y. key y \<le> key x) (S @ [s]) = [s]"
      using all True by simp_all
    show ?thesis using True
      by (simp only: insR_def 1 2) simp
  next
    case False
    then show ?thesis using True
      by (auto simp: insR_def takeWhile_append dropWhile_append)
  qed
next
  case False
  have "\<forall>y\<in>set (S @ [s]). key y \<le> key x"
    using assms False by (auto simp: sorted_append)
  then show ?thesis using False by (simp add: insR_def)
qed

lemma ins_run:
  assumes lt: "\<And>a b. lt a b \<longleftrightarrow> \<not> U a \<and> \<not> U b \<and> key a < key b"
    and "\<not> U x" "\<forall>y\<in>set S. \<not> U y" "sorted (map key S)" "T = [] \<or> U (hd T)"
  shows "ins lt x (rev S @ T) = rev (insR key x S) @ T"
  using assms(3,4)
proof (induction S rule: rev_induct)
  case Nil
  show ?case using assms(2,5) by (cases T) (auto simp: insR_def lt)
next
  case (snoc s S)
  have srt: "sorted (map key S)" using snoc.prems by (simp add: sorted_append)
  show ?case
    using snoc.IH[OF _ srt] snoc.prems assms(2)
    by (simp add: insR_snoc lt)
qed

lemma insR_sort_key:
  "insR key x (sort_key key run) = sort_key key (run @ [x])"
proof (rule properties_for_sort_key[symmetric])
  let ?S = "sort_key key run"
  let ?P = "\<lambda>y. key y \<le> key x"
  have split: "takeWhile ?P ?S @ dropWhile ?P ?S = ?S" by simp
  have msplit: "mset (takeWhile ?P ?S) + mset (dropWhile ?P ?S) = mset run"
    by (metis split mset_append mset_sort)
  show "mset (insR key x ?S) = mset (run @ [x])"
    using msplit by (simp add: insR_def)
  have st: "sorted (map key (takeWhile ?P ?S))" "sorted (map key (dropWhile ?P ?S))"
    using sorted_sort_key[of key run] by (simp_all add: sorted_map)
  have small: "\<forall>y\<in>set (takeWhile ?P ?S). key y \<le> key x"
    by (auto dest: set_takeWhileD)
  have big: "\<forall>y\<in>set (dropWhile ?P ?S). key x < key y"
  proof (cases "dropWhile ?P ?S")
    case Nil show ?thesis unfolding Nil by simp
  next
    case (Cons d ds)
    have "\<not> ?P d" using Cons by (metis hd_dropWhile list.sel(1) list.distinct(1))
    moreover have "sorted (map key (d # ds))"
      using st(2) Cons by simp
    ultimately show ?thesis using Cons by auto
  qed
  show "sorted (map key (insR key x ?S))"
    using st small big by (force simp: insR_def sorted_append)
  show "filter (\<lambda>z. key k = key z) (insR key x ?S) = filter (\<lambda>z. key k = key z) (run @ [x])"
    if "k \<in> set (insR key x ?S)" for k
  proof -
    have st: "filter (\<lambda>z. key k = key z) ?S = filter (\<lambda>z. key k = key z) run"
      using sort_key_stable[of key "key k" run] by (simp add: eq_commute)
    have "filter (\<lambda>z. key k = key z) (takeWhile ?P ?S) @ filter (\<lambda>z. key k = key z) (dropWhile ?P ?S)
          = filter (\<lambda>z. key k = key z) run"
      using st by (metis split filter_append)
    moreover have "key k = key x \<Longrightarrow> filter (\<lambda>z. key k = key z) (dropWhile ?P ?S) = []"
      using big by (auto simp: filter_empty_conv)
    ultimately show ?thesis
      by (auto simp: insR_def)
  qed
qed

lemma isort_runs:
  assumes lt: "\<And>a b. lt a b \<longleftrightarrow> \<not> U a \<and> \<not> U b \<and> key a < key b"
    and "rev racc = D @ sort_key key run" "D = [] \<or> U (last D)" "\<forall>y\<in>set run. \<not> U y"
  shows "isort_acc lt racc rest = D @ sort_runs U key run rest"
  using assms(2-)
proof (induction rest arbitrary: racc D run)
  case Nil
  then show ?case by simp
next
  case (Cons x rest)
  show ?case
  proof (cases "U x")
    case True
    have "ins lt x racc = x # racc"
      using True by (cases racc) (auto simp: lt)
    then have "rev (ins lt x racc) = (D @ sort_key key run @ [x]) @ sort_key key []"
      using Cons.prems by simp
    from Cons.IH[OF this] True show ?thesis by simp
  next
    case False
    have racc: "racc = rev (sort_key key run) @ rev D"
      using Cons.prems(1) by (metis rev_append rev_rev_ident)
    have "ins lt x racc = rev (insR key x (sort_key key run)) @ rev D"
      unfolding racc
    proof (rule ins_run[where U = U])
      show "rev D = [] \<or> U (hd (rev D))"
        using Cons.prems(2) by (auto simp: hd_rev)
    qed (use False Cons.prems lt in auto)
    then have "rev (ins lt x racc) = D @ sort_key key (run @ [x])"
      by (simp add: insR_sort_key)
    from Cons.IH[OF this] False Cons.prems show ?thesis by simp
  qed
qed

lemma insertionSort_func_runs:
  assumes "\<And>a b. lt a b \<longleftrightarrow> \<not> U a \<and> \<not> U b \<and> key a < key b"
  shows "insertionSort_func lt xs = sort_runs U key [] xs"
  using isort_runs[of lt U key "[]" "[]" "[]" xs] assms
  by (simp add: insertionSort_func_isort)

lemma skeleton_parseable:
  "\<forall>y\<in>set ys. \<not> U y \<Longrightarrow>
   map (\<lambda>x. if U x then Some x else None) ys = replicate (length ys) None"
  by (induction ys) auto

lemma sort_runs_skeleton:
  "\<forall>y\<in>set run. \<not> U y \<Longrightarrow>
   map (\<lambda>x. if U x then Some x else None) (sort_runs U key run xs)
     = replicate (length run) None @ map (\<lambda>x. if U x then Some x else None) xs"
proof (induction xs arbitrary: run)
  case Nil
  then show ?case using skeleton_parseable[of "sort_key key run" U] by simp
next
  case (Cons x xs)
  show ?case
  proof (cases "U x")
    case True
    then show ?thesis
      using Cons.IH[of "[]"] Cons.prems skeleton_parseable[of "sort_key key run" U] by simp
  next
    case False
    then show ?thesis
      using Cons.IH[of "run @ [x]"] Cons.prems by (simp add: replicate_append_same)
  qed
qed

lemma mset_sort_runs: "mset (sort_runs U key run xs) = mset run + mset xs"
  by (induction xs arbitrary: run) auto

lemma filter_sort_runs:
  "\<forall>y\<in>set run. \<not> U y \<Longrightarrow> filter U (sort_runs U key run xs) = filter U xs"
  by (induction xs arbitrary: run) (auto simp: filter_empty_conv)

lemma sort_runs_all_parseable:
  "\<forall>y\<in>set xs. \<not> U y \<Longrightarrow> sort_runs U key run xs = sort_key key (run @ xs)"
  by (induction xs arbitrary: run) auto


lemma insertionSort_func_sort_key:
  fixes key :: "'a \<Rightarrow> int"
  assumes "\<And>a b. a \<in> set xs \<Longrightarrow> b \<in> set xs \<Longrightarrow> lt a b \<longleftrightarrow> key a < key b"
  shows "insertionSort_func lt xs = sort_key key xs"
proof -
  have "insertionSort_func lt xs = insertionSort_func (\<lambda>a b. key a < key b) xs"
    by (rule insertionSort_func_cong) (simp add: assms)
  also have "\<dots> = sort_runs (\<lambda>_. False) key [] xs"
    by (rule insertionSort_func_runs) simp
  also have "\<dots> = sort_key key xs"
    by (simp add: sort_runs_all_parseable)
  finally show ?thesis .
qed

lemma sorts_by_key_insertionSort_func: "sorts_by_key insertionSort_func"
  unfolding sorts_by_key_def
proof (intro allI impI)
  fix lt :: "'a \<Rightarrow> 'a \<Rightarrow> bool" and key :: "'a \<Rightarrow> int" and xs
  assume "\<forall>a\<in>set xs. \<forall>b\<in>set xs. lt a b = (key a < key b)"
  then have "insertionSort_func lt xs = sort_key key xs"
    by (intro insertionSort_func_sort_key) simp
  then show "mset (insertionSort_func lt xs) = mset xs \<and> sorted (map key (insertionSort_func lt xs))"
    by simp
qed




lemma filter_eq_single:
  "distinct xs \<Longrightarrow> k \<in> set xs \<Longrightarrow> filter (\<lambda>x. k = x) xs = [k]"
  by (induction xs) (auto simp: filter_empty_conv)

lemma sorted_by_distinct_key_unique:
  assumes "mset ys = mset xs" "sorted (map key ys)" "distinct (map key xs)"
  shows "ys = sort_key key xs"
proof (rule properties_for_sort_key[symmetric])
  show "mset ys = mset xs" by fact
  show "sorted (map key ys)" by fact
  have inj: "inj_on key (set xs)" and dxs: "distinct xs"
    using assms(3) by (simp_all add: distinct_map)
  have dys: "distinct ys"
    using dxs assms(1) by (metis mset_eq_imp_distinct_iff)
  have sets: "set ys = set xs"
    using assms(1) by (metis mset_eq_setD)
  show "filter (\<lambda>x. key k = key x) ys = filter (\<lambda>x. key k = key x) xs" if "k \<in> set ys" for k
  proof -
    have "filter (\<lambda>x. key k = key x) ys = filter (\<lambda>x. k = x) ys"
      by (rule filter_cong) (use that sets inj in \<open>auto simp: inj_on_def\<close>)
    moreover have "filter (\<lambda>x. key k = key x) xs = filter (\<lambda>x. k = x) xs"
      by (rule filter_cong) (use that sets inj in \<open>auto simp: inj_on_def\<close>)
    moreover have "filter (\<lambda>x. k = x) ys = [k]" "filter (\<lambda>x. k = x) xs = [k]"
      using that sets dxs dys by (simp_all add: filter_eq_single)
    ultimately show ?thesis by simp
  qed
qed

lemma sort_Slice_by_distinct_key:
  fixes key :: "'a \<Rightarrow> int"
  assumes "sorts_by_key pdq"
    and "\<And>a b. a \<in> set xs \<Longrightarrow> b \<in> set xs \<Longrightarrow> lt a b \<longleftrightarrow> key a < key b"
    and "distinct (map key xs)"
  shows "sort_Slice pdq lt xs = sort_key key xs"
proof (cases "length xs \<le> 12")
  case True
  then show ?thesis
    using insertionSort_func_sort_key[of xs lt key] assms(2) by (simp add: sort_Slice_def)
next
  case False
  have "mset (pdq lt xs) = mset xs \<and> sorted (map key (pdq lt xs))"
    using assms(1,2) unfolding sorts_by_key_def by blast
  then have "pdq lt xs = sort_key key xs"
    using assms(3) by (intro sorted_by_distinct_key_unique) simp_all
  then show ?thesis using False by (simp add: sort_Slice_def)
qed

subsection \<open>What each step leaves alone\<close>

lemma forwardToDestination_frame:
  "uploads (snd (forwardToDestination env w dst fp fn uh t)) = uploads w"
  "temp (snd (forwardToDestination env w dst fp fn uh t)) = temp w"
  "db (snd (forwardToDestination env w dst fp fn uh t)) = db w"
  by (auto simp: forwardToDestination_def Let_def split: option.splits sum.splits prod.splits)

lemma forwardToDestination_sent:
  "sent (snd (forwardToDestination env w dst fp fn uh t)) = sent w
   \<or> (\<exists>url bytes. urlMap dst = Some url \<and> temp w fp = Some bytes
        \<and> sent (snd (forwardToDestination env w dst fp fn uh t))
            = sent w @ [build_request url dst fn uh t bytes])"
  by (auto simp: forwardToDestination_def Let_def split: option.splits sum.splits prod.splits)

lemma storeUrl_frame:
  "uploads (snd (storeUrl env w h dst u)) = uploads w"
  "temp (snd (storeUrl env w h dst u)) = temp w"
  "sent (snd (storeUrl env w h dst u)) = sent w"
  by (auto simp: storeUrl_def db_Exec_def split: option.splits)

lemma storeUrl_fails_db:
  "fst (storeUrl env w h dst u) = Some e \<Longrightarrow> snd (storeUrl env w h dst u) = w"
  by (auto simp: storeUrl_def db_Exec_def split: option.splits if_splits)

lemma processAndForwardFile_frame:
  "uploads (snd (processAndForwardFile env w fp fn uh dst t)) = uploads w"
  "temp (snd (processAndForwardFile env w fp fn uh dst t)) = temp w"
proof -
  obtain r w1 where f: "forwardToDestination env w dst fp fn uh t = (r, w1)"
    by (cases "forwardToDestination env w dst fp fn uh t")
  have "uploads w1 = uploads w" "temp w1 = temp w"
    using forwardToDestination_frame[of env w dst fp fn uh t] f by simp_all
  then show "uploads (snd (processAndForwardFile env w fp fn uh dst t)) = uploads w"
    "temp (snd (processAndForwardFile env w fp fn uh dst t)) = temp w"
    using f by (auto simp: processAndForwardFile_def storeUrl_frame split: sum.splits)
qed

lemma forward_status_not_200:
  assumes "urlMap destination = Some url" and "temp w filePath = Some bytes"
    and "stream_err env = None"
    and "client_Do env (build_request url destination filename userhash timeVal bytes)
           = Inr (status, Inr respBody)"
  shows "forwardToDestination env w destination filePath filename userhash timeVal
           = (parse_response env destination status respBody,
              w\<lparr>sent := sent w @ [build_request url destination filename userhash timeVal bytes]\<rparr>)"
  using assms by (simp add: forwardToDestination_def Let_def)

subsection \<open>Forwarding: the status check\<close>

lemma show_int_201: "show_int 201 = ''201''"
  by code_simp

lemma show_int_204: "show_int 204 = ''204''"
  by code_simp

text \<open>
  C8: a forward succeeds only when the backend's status is exactly 200. Any other status,
  the other 2xx codes included, is returned as the error
  \<^verbatim>\<open>upload failed with status <code>: <body>\<close> with that code and that body.
\<close>

theorem forward_requires_status_200:
  assumes "urlMap destination = Some url" and "temp w filePath = Some bytes"
    and "stream_err env = None"
    and "client_Do env (build_request url destination filename userhash timeVal bytes)
           = Inr (status, Inr respBody)"
  shows "(status \<noteq> 200 \<longrightarrow>
            fst (forwardToDestination env w destination filePath filename userhash timeVal)
              = Inl (''upload failed with status '' @ show_int status @ '': '' @ respBody))
         \<and> ((\<exists>u. fst (forwardToDestination env w destination filePath filename userhash timeVal) = Inr u)
              \<longrightarrow> status = 200)"
  using forward_status_not_200[OF assms] by (auto simp: parse_response_def)

theorem forward_requires_status_200_witness:
  "fst (forwardToDestination (env0\<lparr>client_Do := \<lambda>req. Inr (201, Inr ''Created'')\<rparr>)
          (world0\<lparr>temp := [''u-a.bin'' \<mapsto> ''ABC'']\<rparr>) ''catbox'' ''u-a.bin'' ''a.bin'' [] ''1h'')
     = Inl ''upload failed with status 201: Created''"
  using forward_requires_status_200[of "''catbox''" "''https://catbox.moe/user/api.php''"
      "world0\<lparr>temp := [''u-a.bin'' \<mapsto> ''ABC'']\<rparr>" "''u-a.bin''" "''ABC''"
      "env0\<lparr>client_Do := \<lambda>req. Inr (201, Inr ''Created'')\<rparr>" "''a.bin''" "[]" "''1h''" 201 "''Created''"]
  by (simp add: urlMap_def env0_def world0_def show_int_201)

lemma processAndForwardFile_forward_error:
  assumes "forwardToDestination env w dst fp fn uh t = (Inl msg, w1)"
  shows "db (snd (processAndForwardFile env w fp fn uh dst t)) = db w"
    and "sent (snd (processAndForwardFile env w fp fn uh dst t)) \<noteq> sent w \<Longrightarrow>
         fst (processAndForwardFile env w fp fn uh dst t) = HttpError (''Upload failed: '' @ msg) 500"
proof -
  have "db w1 = db w"
    using forwardToDestination_frame(3)[of env w dst fp fn uh t] assms by simp
  then show "db (snd (processAndForwardFile env w fp fn uh dst t)) = db w"
    using assms by (auto simp: processAndForwardFile_def split: sum.splits)
  show "fst (processAndForwardFile env w fp fn uh dst t) = HttpError (''Upload failed: '' @ msg) 500"
    if "sent (snd (processAndForwardFile env w fp fn uh dst t)) \<noteq> sent w"
    using that assms by (auto simp: processAndForwardFile_def split: sum.splits if_splits)
qed

text \<open>
  C6: when the backend answers with a status outside 200..299, \<^verbatim>\<open>forwardToDestination\<close>
  returns an error whose text holds the decimal status code and the raw response body,
  and the \<^verbatim>\<open>hash\<close> table is the same after the forward and after the whole of
  \<^verbatim>\<open>processAndForwardFile\<close>, which answers 500 with that text whenever it sent the request.
\<close>

theorem non_2xx_is_error_and_cache_unmodified:
  assumes "urlMap destination = Some url" and "temp w filePath = Some bytes"
    and "stream_err env = None"
    and "client_Do env (build_request url destination filename userhash timeVal bytes)
           = Inr (status, Inr respBody)"
    and "status < 200 \<or> 300 \<le> status"
  shows "let msg = ''upload failed with status '' @ show_int status @ '': '' @ respBody in
         fst (forwardToDestination env w destination filePath filename userhash timeVal) = Inl msg
         \<and> sublist (show_int status) msg \<and> sublist respBody msg
         \<and> db (snd (forwardToDestination env w destination filePath filename userhash timeVal)) = db w
         \<and> db (snd (processAndForwardFile env w filePath filename userhash destination timeVal)) = db w
         \<and> (sent (snd (processAndForwardFile env w filePath filename userhash destination timeVal)) \<noteq> sent w
              \<longrightarrow> fst (processAndForwardFile env w filePath filename userhash destination timeVal)
                    = HttpError (''Upload failed: '' @ msg) 500)"
proof -
  define msg where "msg = ''upload failed with status '' @ show_int status @ '': '' @ respBody"
  have ne: "status \<noteq> 200" using assms(5) by auto
  have fwd: "forwardToDestination env w destination filePath filename userhash timeVal
        = (Inl msg, w\<lparr>sent := sent w @ [build_request url destination filename userhash timeVal bytes]\<rparr>)"
    using forward_status_not_200[OF assms(1-4)] ne
    by (simp add: parse_response_def msg_def)
  have s1: "sublist (show_int status) msg"
    unfolding msg_def by (rule sublist_appendI)
  have s2: "sublist respBody msg"
    unfolding msg_def by (metis append.assoc sublist_append_leftI)
  show ?thesis
    unfolding Let_def msg_def[symmetric]
    using s1 s2 processAndForwardFile_forward_error[OF fwd] fwd by simp
qed

theorem non_2xx_is_error_and_cache_unmodified_witness:
  "fst (processAndForwardFile (env0\<lparr>client_Do := \<lambda>req. Inr (503, Inr ''Service Unavailable'')\<rparr>)
          (world0\<lparr>temp := [''u-a.bin'' \<mapsto> ''ABC'']\<rparr>) ''u-a.bin'' ''a.bin'' [] ''catbox'' ''1h'')
     = HttpError ''Upload failed: upload failed with status 503: Service Unavailable'' 500
   \<and> db (snd (processAndForwardFile (env0\<lparr>client_Do := \<lambda>req. Inr (503, Inr ''Service Unavailable'')\<rparr>)
          (world0\<lparr>temp := [''u-a.bin'' \<mapsto> ''ABC'']\<rparr>) ''u-a.bin'' ''a.bin'' [] ''catbox'' ''1h'')) = Map.empty"
proof -
  let ?env = "env0\<lparr>client_Do := \<lambda>req. Inr (503, Inr ''Service Unavailable'')\<rparr>"
  let ?w = "world0\<lparr>temp := [''u-a.bin'' \<mapsto> ''ABC'']\<rparr>"
  have 503: "show_int 503 = ''503''" by code_simp
  have sent: "sent (snd (processAndForwardFile ?env ?w ''u-a.bin'' ''a.bin'' [] ''catbox'' ''1h'')) \<noteq> sent ?w"
    by (simp add: processAndForwardFile_def calculateFileHash_def GetURLsByHash_def cached_url_def
        forwardToDestination_def urlMap_def env0_def world0_def Let_def parse_response_def)
  show ?thesis
    using non_2xx_is_error_and_cache_unmodified[of "''catbox''" "''https://catbox.moe/user/api.php''"
        ?w "''u-a.bin''" "''ABC''" ?env "''a.bin''" "[]" "''1h''" 503 "''Service Unavailable''"] sent
    by (simp add: urlMap_def env0_def world0_def 503 Let_def)
qed

subsection \<open>The pipeline and the dedup table\<close>

text \<open>
  C7: for a cacheable destination, when the forward has returned a URL and \<^verbatim>\<open>storeUrl\<close>
  then fails, \<^verbatim>\<open>processAndForwardFile\<close> still answers with that URL as a success; the
  failure only reaches the log, and the table is unchanged.
\<close>

theorem cache_store_failure_is_swallowed:
  assumes "destination \<noteq> ''litterbox''"
    and "calculateFileHash env w filePath = Inr hash"
    and "GetURLsByHash env w hash = Inr record"
    and "cached_url destination record = []"
    and "forwardToDestination env w destination filePath filename userhash timeVal = (Inr url, w1)"
    and "fst (storeUrl env w1 hash destination url) = Some e"
  shows "processAndForwardFile env w filePath filename userhash destination timeVal
           = (Json [(''url'', url)], w1)
         \<and> db w1 = db w"
proof -
  have "snd (storeUrl env w1 hash destination url) = w1"
    using assms(6) by (rule storeUrl_fails_db)
  moreover have "db w1 = db w"
    using forwardToDestination_frame(3)[of env w destination filePath filename userhash timeVal] assms(5)
    by simp
  ultimately show ?thesis
    using assms(1-5) by (simp add: processAndForwardFile_def)
qed

theorem cache_store_failure_is_swallowed_witness:
  "processAndForwardFile (env0\<lparr>Exec_err := Some ''connection refused''\<rparr>)
      (world0\<lparr>temp := [''u-a.bin'' \<mapsto> ''ABC'']\<rparr>) ''u-a.bin'' ''a.bin'' [] ''catbox'' ''1h''
     = (Json [(''url'', ''https://files.example/abc'')],
        world0\<lparr>temp := [''u-a.bin'' \<mapsto> ''ABC''],
               sent := [build_request ''https://catbox.moe/user/api.php'' ''catbox'' ''a.bin'' [] ''1h'' ''ABC'']\<rparr>)"
  using cache_store_failure_is_swallowed[of "''catbox''" "env0\<lparr>Exec_err := Some ''connection refused''\<rparr>"
      "world0\<lparr>temp := [''u-a.bin'' \<mapsto> ''ABC'']\<rparr>" "''u-a.bin''" "''sha:ABC''"
      "\<lparr>Hash = ''sha:ABC'', CatboxURL = None, PomfURL = None\<rparr>" "''a.bin''" "[]" "''1h''"
      "''https://files.example/abc''"
      "world0\<lparr>temp := [''u-a.bin'' \<mapsto> ''ABC''],
               sent := [build_request ''https://catbox.moe/user/api.php'' ''catbox'' ''a.bin'' [] ''1h'' ''ABC'']\<rparr>"
      "''database insert/update failed: connection refused''"]
  by (simp add: calculateFileHash_def GetURLsByHash_def cached_url_def forwardToDestination_def
      urlMap_def env0_def world0_def Let_def parse_response_def storeUrl_def db_Exec_def)

lemma parse_response_cache_fields:
  "parse_response
     (env\<lparr>sha256_hex := h, Open_hash_err := oe, Copy_hash_err := ce, Query_err := qe, Exec_err := xe\<rparr>)
     dst status body = parse_response env dst status body"
  by (simp add: parse_response_def)

lemma forwardToDestination_cache_fields:
  "forwardToDestination
     (env\<lparr>sha256_hex := h, Open_hash_err := oe, Copy_hash_err := ce, Query_err := qe, Exec_err := xe\<rparr>)
     (w\<lparr>db := table\<rparr>) dst fp fn uh t
   = (fst (forwardToDestination env w dst fp fn uh t),
      (snd (forwardToDestination env w dst fp fn uh t))\<lparr>db := table\<rparr>)"
  by (simp add: forwardToDestination_def Let_def parse_response_cache_fields
      split: option.splits sum.splits prod.splits)

lemma litterbox_is_forward:
  "processAndForwardFile env w fp fn uh ''litterbox'' t
     = (case fst (forwardToDestination env w ''litterbox'' fp fn uh t) of
          Inl err \<Rightarrow> HttpError (''Upload failed: '' @ err) 500
        | Inr url \<Rightarrow> Json [(''url'', url)],
        snd (forwardToDestination env w ''litterbox'' fp fn uh t))"
  by (simp add: processAndForwardFile_def split: prod.splits sum.splits)

text \<open>
  C5: an upload to \<^verbatim>\<open>litterbox\<close> leaves the \<^verbatim>\<open>hash\<close> table as it was (no upsert); its
  outcome is the same whatever the table holds, whatever the digest function computes
  and whether or not hashing or the database would fail (no fingerprint, no lookup); and
  the file is handed to the backend whenever it can be streamed, also when a cacheable
  upload of the same bytes is on record.
\<close>

theorem litterbox_bypasses_cache:
  "db (snd (processAndForwardFile env w filePath filename userhash ''litterbox'' timeVal)) = db w
   \<and> processAndForwardFile
        (env\<lparr>sha256_hex := h, Open_hash_err := oe, Copy_hash_err := ce, Query_err := qe, Exec_err := xe\<rparr>)
        (w\<lparr>db := table\<rparr>) filePath filename userhash ''litterbox'' timeVal
      = (fst (processAndForwardFile env w filePath filename userhash ''litterbox'' timeVal),
         (snd (processAndForwardFile env w filePath filename userhash ''litterbox'' timeVal))\<lparr>db := table\<rparr>)
   \<and> (temp w filePath = Some bytes \<and> stream_err env = None \<longrightarrow>
        sent (snd (processAndForwardFile env w filePath filename userhash ''litterbox'' timeVal))
          = sent w @ [build_request ''https://litterbox.catbox.moe/resources/internals/api.php''
                        ''litterbox'' filename userhash timeVal bytes])"
proof (intro conjI impI)
  show "db (snd (processAndForwardFile env w filePath filename userhash ''litterbox'' timeVal)) = db w"
    by (simp add: litterbox_is_forward forwardToDestination_frame)
  show "processAndForwardFile
        (env\<lparr>sha256_hex := h, Open_hash_err := oe, Copy_hash_err := ce, Query_err := qe, Exec_err := xe\<rparr>)
        (w\<lparr>db := table\<rparr>) filePath filename userhash ''litterbox'' timeVal
      = (fst (processAndForwardFile env w filePath filename userhash ''litterbox'' timeVal),
         (snd (processAndForwardFile env w filePath filename userhash ''litterbox'' timeVal))\<lparr>db := table\<rparr>)"
    by (simp add: litterbox_is_forward forwardToDestination_cache_fields)
  assume "temp w filePath = Some bytes \<and> stream_err env = None"
  then show "sent (snd (processAndForwardFile env w filePath filename userhash ''litterbox'' timeVal))
          = sent w @ [build_request ''https://litterbox.catbox.moe/resources/internals/api.php''
                        ''litterbox'' filename userhash timeVal bytes]"
    by (auto simp: litterbox_is_forward forwardToDestination_def urlMap_def Let_def
        split: sum.splits prod.splits)
qed

theorem litterbox_bypasses_cache_witness:
  "processAndForwardFile env0
      (world0\<lparr>temp := [''u-a.bin'' \<mapsto> ''ABC''],
              db := [''sha:ABC'' \<mapsto> (Some ''https://files.catbox.moe/old'', None)]\<rparr>)
      ''u-a.bin'' ''a.bin'' [] ''litterbox'' ''1h''
     = (Json [(''url'', ''https://files.example/abc'')],
        world0\<lparr>temp := [''u-a.bin'' \<mapsto> ''ABC''],
               db := [''sha:ABC'' \<mapsto> (Some ''https://files.catbox.moe/old'', None)],
               sent := [build_request ''https://litterbox.catbox.moe/resources/internals/api.php''
                          ''litterbox'' ''a.bin'' [] ''1h'' ''ABC'']\<rparr>)
   \<and> processAndForwardFile env0
      (world0\<lparr>temp := [''u-a.bin'' \<mapsto> ''ABC''],
              db := [''sha:ABC'' \<mapsto> (Some ''https://files.catbox.moe/old'', None)]\<rparr>)
      ''u-a.bin'' ''a.bin'' [] ''catbox'' ''1h''
     = (Json [(''url'', ''https://files.catbox.moe/old'')],
        world0\<lparr>temp := [''u-a.bin'' \<mapsto> ''ABC''],
               db := [''sha:ABC'' \<mapsto> (Some ''https://files.catbox.moe/old'', None)]\<rparr>)"
  using litterbox_bypasses_cache[where env = env0
      and w = "world0\<lparr>temp := [''u-a.bin'' \<mapsto> ''ABC''],
              db := [''sha:ABC'' \<mapsto> (Some ''https://files.catbox.moe/old'', None)]\<rparr>"
      and filePath = "''u-a.bin''" and filename = "''a.bin''" and userhash = "[]" and timeVal = "''1h''"
      and h = "sha256_hex env0" and oe = None and ce = None and qe = None and xe = None
      and table = "[''sha:ABC'' \<mapsto> (Some ''https://files.catbox.moe/old'', None)]"
      and bytes = "''ABC''"]
  by (simp add: processAndForwardFile_def calculateFileHash_def GetURLsByHash_def cached_url_def
      forwardToDestination_def urlMap_def env0_def world0_def Let_def parse_response_def)

lemma processAndForwardFile_sent:
  "sent (snd (processAndForwardFile env w fp fn uh dst t)) = sent w
   \<or> (\<exists>url bytes. sent (snd (processAndForwardFile env w fp fn uh dst t))
          = sent w @ [build_request url dst fn uh t bytes])"
proof -
  obtain r w1 where f: "forwardToDestination env w dst fp fn uh t = (r, w1)"
    by (cases "forwardToDestination env w dst fp fn uh t")
  have "sent w1 = sent w \<or> (\<exists>url bytes. sent w1 = sent w @ [build_request url dst fn uh t bytes])"
    using forwardToDestination_sent[of env w dst fp fn uh t] f by auto
  moreover have "sent (snd (processAndForwardFile env w fp fn uh dst t)) = sent w
      \<or> sent (snd (processAndForwardFile env w fp fn uh dst t)) = sent w1"
    using f by (auto simp: processAndForwardFile_def storeUrl_frame split: sum.splits)
  ultimately show ?thesis by metis
qed

subsection \<open>Frames of the handlers\<close>

lemma write_temp_frame [simp]:
  "uploads (write_temp n b w) = uploads w"
  "db (write_temp n b w) = db w"
  "sent (write_temp n b w) = sent w"
  "session_dir (write_temp n b w) u = session_dir w u"
  by (simp_all add: write_temp_def session_dir_def)

lemma os_Open_chunk_write_temp [simp]:
  "os_Open_chunk env (write_temp n b w) u c = os_Open_chunk env w u c"
  by (simp add: os_Open_chunk_def split: option.splits)

lemma copy_chunks_frame:
  "uploads (snd (copy_chunks env u final cs w)) = uploads w"
  "db (snd (copy_chunks env u final cs w)) = db w"
  "sent (snd (copy_chunks env u final cs w)) = sent w"
  by (induction cs arbitrary: w; simp split: sum.splits option.splits prod.splits)+

lemma assembleChunks_frame:
  "uploads (snd (assembleChunks env w u fn)) = uploads w"
  "db (snd (assembleChunks env w u fn)) = db w"
  "sent (snd (assembleChunks env w u fn)) = sent w"
  by (simp_all add: assembleChunks_def Let_def copy_chunks_frame split: sum.splits option.splits)

lemma os_Remove_frame [simp]:
  "uploads (os_Remove env n w) = uploads w"
  "db (os_Remove env n w) = db w"
  "sent (os_Remove env n w) = sent w"
  by (simp_all add: os_Remove_def split: option.splits)

lemma os_Remove_removes:
  "Remove_err env = None \<Longrightarrow> temp (os_Remove env n w) = (temp w)(n := None)"
  by (simp add: os_Remove_def)

lemma os_RemoveAll_frame [simp]:
  "temp (os_RemoveAll env u w) = temp w"
  "db (os_RemoveAll env u w) = db w"
  "sent (os_RemoveAll env u w) = sent w"
  by (simp_all add: os_RemoveAll_def split: option.splits)

lemma os_RemoveAll_removes:
  "RemoveAll_err env = None \<Longrightarrow> uploads (os_RemoveAll env u w) u = None"
  by (simp add: os_RemoveAll_def split: option.splits)

lemma finishHandler_sent:
  "sent (snd (finishHandler env w r)) = sent w
   \<or> (\<exists>url bytes. sent (snd (finishHandler env w r))
         = sent w @ [build_request url (f_destination r) (f_filename r) (f_userhash r)
                       (if f_time r = [] then ''1h'' else f_time r) bytes])"
proof -
  obtain a w1 where asm: "assembleChunks env w (f_uploadId r) (f_filename r) = (a, w1)"
    by (cases "assembleChunks env w (f_uploadId r) (f_filename r)")
  have s1: "sent w1 = sent w"
    using assembleChunks_frame(3)[of env w "f_uploadId r" "f_filename r"] asm by simp
  show ?thesis
  proof (cases a)
    case (Inl e)
    then show ?thesis using asm s1 by (simp add: finishHandler_def Let_def)
  next
    case (Inr p)
    let ?t = "if f_time r = [] then ''1h'' else f_time r"
    have "snd (finishHandler env w r) = w
       \<or> sent (snd (finishHandler env w r))
           = sent (snd (processAndForwardFile env w1 p (f_filename r) (f_userhash r) (f_destination r) ?t))"
      using asm Inr by (simp add: finishHandler_def Let_def split: prod.splits)
    then show ?thesis
      using processAndForwardFile_sent[of env w1 p "f_filename r" "f_userhash r" "f_destination r" ?t] s1
      by metis
  qed
qed

lemma directHandler_sent:
  "sent (snd (directHandler env w r)) = sent w
   \<or> (\<exists>url bytes name. sent (snd (directHandler env w r))
         = sent w @ [build_request url (d_destination r) name (d_userhash r)
                       (if d_time r = [] then ''1h'' else d_time r) bytes])"
proof (cases "d_parse_err r = None \<and> d_file r \<noteq> None \<and> Create_temp_err env = None
              \<and> Copy_temp_err env = None \<and> Close_temp_err env = None")
  case False
  then show ?thesis
    by (auto simp: directHandler_def Let_def split: option.splits prod.splits)
next
  case True
  then obtain hn bytes where f: "d_file r = Some (hn, bytes)" by auto
  let ?t = "if d_time r = [] then ''1h'' else d_time r"
  let ?u = "uuid_New env @ filepath_Ext hn"
  let ?w1 = "w\<lparr>temp := (temp w)(?u \<mapsto> bytes)\<rparr>"
  let ?X = "sent (snd (processAndForwardFile env ?w1 ?u hn (d_userhash r) (d_destination r) ?t))"
  have eq: "sent (snd (directHandler env w r)) = ?X"
    using True f by (simp add: directHandler_def Let_def split: prod.splits)
  consider "?X = sent w"
    | url b where "?X = sent w @ [build_request url (d_destination r) hn (d_userhash r) ?t b]"
    using processAndForwardFile_sent[of env ?w1 ?u hn "d_userhash r" "d_destination r" ?t]
    by auto
  then show ?thesis
  proof cases
    case 1
    then show ?thesis using eq by simp
  next
    case 2
    show ?thesis
      by (rule disjI2, rule exI[of _ url], rule exI[of _ b], rule exI[of _ hn])
         (simp only: eq 2)
  qed
qed

lemma litterbox_fields [simp]:
  "req_fields (build_request url ''litterbox'' fn uh t bytes) = [(''reqtype'', ''fileupload''), (''time'', t)]"
  by (simp add: build_request_def form_fields_def)

lemmas eval_defs =
  Atoi_def digits_val_def digit_val_def is_digit_def TrimPrefix_def chunk_index_def chunk_less_def
  insertionSort_func_isort sort_Slice_def chunk_names_def IsDir_def
  os_ReadDir_def os_Open_chunk_def session_dir_def write_temp_def write_chunk_def os_MkdirAll_def
  assembleChunks_def finishHandler_def directHandler_def chunkHandler_def chunk_name_def
  os_Create_chunk_def
  processAndForwardFile_def forwardToDestination_def parse_response_def urlMap_def
  calculateFileHash_def GetURLsByHash_def cached_url_def storeUrl_def db_Exec_def
  upsert_catbox_def upsert_pomf_def os_Remove_def os_RemoveAll_def filepath_Ext_def
  env0_def world0_def Let_def

subsection \<open>The default time-to-live\<close>

text \<open>
  C9: a finish request and a direct upload that supply no \<^verbatim>\<open>time\<close> value behave exactly
  as if they had supplied \<^verbatim>\<open>1h\<close>, and when the destination is \<^verbatim>\<open>litterbox\<close> every
  request the handler sends carries the form field \<^verbatim>\<open>time=1h\<close>.
\<close>

theorem default_ttl_is_one_hour:
  "(f_time r = [] \<longrightarrow>
      finishHandler env w r = finishHandler env w (r\<lparr>f_time := ''1h''\<rparr>)
      \<and> (f_destination r = ''litterbox'' \<longrightarrow>
           (\<forall>q \<in> set (drop (length (sent w)) (sent (snd (finishHandler env w r)))).
              req_fields q = [(''reqtype'', ''fileupload''), (''time'', ''1h'')])))
   \<and> (d_time dr = [] \<longrightarrow>
      directHandler env w dr = directHandler env w (dr\<lparr>d_time := ''1h''\<rparr>)
      \<and> (d_destination dr = ''litterbox'' \<longrightarrow>
           (\<forall>q \<in> set (drop (length (sent w)) (sent (snd (directHandler env w dr)))).
              req_fields q = [(''reqtype'', ''fileupload''), (''time'', ''1h'')])))"
proof (intro conjI impI)
  assume t: "f_time r = []"
  show "finishHandler env w r = finishHandler env w (r\<lparr>f_time := ''1h''\<rparr>)"
    using t by (simp add: finishHandler_def Let_def split: prod.splits sum.splits)
  assume l: "f_destination r = ''litterbox''"
  show "\<forall>q \<in> set (drop (length (sent w)) (sent (snd (finishHandler env w r)))).
          req_fields q = [(''reqtype'', ''fileupload''), (''time'', ''1h'')]"
    using finishHandler_sent[of env w r] t l by auto
next
  assume t: "d_time dr = []"
  show "directHandler env w dr = directHandler env w (dr\<lparr>d_time := ''1h''\<rparr>)"
    using t by (simp add: directHandler_def Let_def split: prod.splits sum.splits option.splits)
  assume l: "d_destination dr = ''litterbox''"
  show "\<forall>q \<in> set (drop (length (sent w)) (sent (snd (directHandler env w dr)))).
          req_fields q = [(''reqtype'', ''fileupload''), (''time'', ''1h'')]"
    using directHandler_sent[of env w dr] t l by auto
qed


theorem default_ttl_is_one_hour_witness:
  "sent (snd (finishHandler env0 (world0\<lparr>uploads := [''s'' \<mapsto> [(''chunk_0'', File ''A'')]]\<rparr>)
            \<lparr>f_uploadId = ''s'', f_filename = ''a.bin'', f_userhash = [],
             f_destination = ''litterbox'', f_time = []\<rparr>))
     = [\<lparr>req_url = ''https://litterbox.catbox.moe/resources/internals/api.php'',
         req_fields = [(''reqtype'', ''fileupload''), (''time'', ''1h'')],
         req_file_field = ''fileToUpload'', req_filename = ''a.bin'', req_body = ''A''\<rparr>]
   \<and> sent (snd (directHandler env0 world0
            \<lparr>d_parse_err = None, d_file = Some (''a.bin'', ''A''),
             d_destination = ''litterbox'', d_time = [], d_userhash = []\<rparr>))
     = [\<lparr>req_url = ''https://litterbox.catbox.moe/resources/internals/api.php'',
         req_fields = [(''reqtype'', ''fileupload''), (''time'', ''1h'')],
         req_file_field = ''fileToUpload'', req_filename = ''a.bin'', req_body = ''A''\<rparr>]"
  using default_ttl_is_one_hour[of
      "\<lparr>f_uploadId = ''s'', f_filename = ''a.bin'', f_userhash = [],
        f_destination = ''litterbox'', f_time = []\<rparr>"
      env0 "world0\<lparr>uploads := [''s'' \<mapsto> [(''chunk_0'', File ''A'')]]\<rparr>"
      "\<lparr>d_parse_err = None, d_file = Some (''a.bin'', ''A''),
        d_destination = ''litterbox'', d_time = [], d_userhash = []\<rparr>"]
  by (simp add: eval_defs build_request_def form_fields_def file_field_def)

subsection \<open>Which directory entries are assembled\<close>





lemma set_chunk_names:
  "set (chunk_names es) = {n. \<exists>nd. (n, nd) \<in> set es \<and> nd \<noteq> Dir \<and> prefix ''chunk_'' n}"
  unfolding chunk_names_def IsDir_def by force




subsection \<open>A session without chunks\<close>

lemma sort_Slice_Nil [simp]: "sort_Slice pdq lt [] = []"
  by (simp add: sort_Slice_def insertionSort_func_def)

lemma assembleChunks_no_directory:
  "uploads w uploadId = None \<Longrightarrow>
   assembleChunks env w uploadId filename
     = (Inl (''no chunks found for '' @ filepath_Base (chunk_dir uploadId) @ '': ''
              @ ENOENT (chunk_dir uploadId)), w)"
  by (simp add: assembleChunks_def os_ReadDir_def)

lemma assembleChunks_no_chunk_entries:
  assumes "uploads w uploadId = Some d" and "chunk_names (sort_key fst d) = []"
    and "ReadDir_err env = None" and "Create_final_err env = None"
  shows "assembleChunks env w uploadId filename
     = (Inr (uuid_New env @ ''-'' @ filename),
        w\<lparr>temp := (temp w)(uuid_New env @ ''-'' @ filename \<mapsto> [])\<rparr>)"
  using assms by (simp add: assembleChunks_def os_ReadDir_def Let_def)

text \<open>
  C4: the claim is that \<^verbatim>\<open>assembleChunks\<close> fails with a no-chunks error for every session
  without chunks. The code does so only when the session directory cannot be read
  (\<open>assembleChunks_no_directory\<close>). When the directory exists and holds no chunk entry
  (\<open>assembleChunks_no_chunk_entries\<close>) it creates an empty artifact and returns its path.
  Here the directory is left behind by a chunk upload whose file could not be created,
  and the finish request then forwards zero bytes and records the URL in the table.
\<close>

theorem assemble_empty_session_returns_artifact:
  "snd (chunkHandler (env0\<lparr>Create_chunk_err := Some ''no such file or directory''\<rparr>) world0
          \<lparr>c_parse_err = None, c_uploadId = ''s'', c_index = ''x/y'', c_chunk = Some ''A''\<rparr>)
     = world0\<lparr>uploads := [''s'' \<mapsto> []]\<rparr>
   \<and> assembleChunks env0 (world0\<lparr>uploads := [''s'' \<mapsto> []]\<rparr>) ''s'' ''a.bin''
     = (Inr ''u-a.bin'', world0\<lparr>uploads := [''s'' \<mapsto> []], temp := [''u-a.bin'' \<mapsto> []]\<rparr>)
   \<and> finishHandler env0 (world0\<lparr>uploads := [''s'' \<mapsto> []]\<rparr>)
        \<lparr>f_uploadId = ''s'', f_filename = ''a.bin'', f_userhash = [], f_destination = ''catbox'', f_time = []\<rparr>
     = (Json [(''url'', ''https://files.example/abc'')],
        world0\<lparr>db := [''sha:'' \<mapsto> (Some ''https://files.example/abc'', None)],
               sent := [build_request ''https://catbox.moe/user/api.php'' ''catbox'' ''a.bin'' [] ''1h'' []]\<rparr>)"
  by (simp add: eval_defs)

subsection \<open>What a finish request leaves on transient storage\<close>

text \<open>
  C2, as amended. A finish request that passes the check of its form values (upload id,
  file name and destination all non-empty) ends, whatever its outcome, with the session
  directory removed when the deferred \<^verbatim>\<open>os.RemoveAll\<close> succeeds; and when
  \<^verbatim>\<open>assembleChunks\<close> returned an artifact, that file is gone from \<^verbatim>\<open>/tmp/temp\<close> when the
  handler returns, whether hashing, the lookup, the forward or the store succeed or
  fail, when the deferred \<^verbatim>\<open>os.Remove\<close> succeeds. The code discards the errors of both
  removals. A finish request with an empty upload id, file name or destination is
  answered 400 before either removal is registered, and changes nothing: the chunks of
  the session stay.
\<close>

theorem finish_removes_session_and_artifact:
  "(f_uploadId r \<noteq> [] \<and> f_filename r \<noteq> [] \<and> f_destination r \<noteq> [] \<longrightarrow>
      (RemoveAll_err env = None \<longrightarrow>
         uploads (snd (finishHandler env w r)) (f_uploadId r) = None)
      \<and> (\<forall>finalPath w1.
           assembleChunks env w (f_uploadId r) (f_filename r) = (Inr finalPath, w1)
           \<and> Remove_err env = None
           \<longrightarrow> temp (snd (finishHandler env w r)) finalPath = None))
   \<and> (f_uploadId r = [] \<or> f_filename r = [] \<or> f_destination r = [] \<longrightarrow>
        finishHandler env w r = (HttpError ''Missing uploadId, filename, or destination'' 400, w))"
proof (intro conjI impI allI)
  assume ok: "f_uploadId r \<noteq> [] \<and> f_filename r \<noteq> [] \<and> f_destination r \<noteq> []"
  obtain a w1 where asm: "assembleChunks env w (f_uploadId r) (f_filename r) = (a, w1)"
    by (cases "assembleChunks env w (f_uploadId r) (f_filename r)")
  {
    assume rm: "RemoveAll_err env = None"
    show "uploads (snd (finishHandler env w r)) (f_uploadId r) = None"
    proof (cases a)
      case (Inl e)
      then show ?thesis
        using asm ok rm by (simp add: finishHandler_def Let_def os_RemoveAll_removes)
    next
      case (Inr p)
      then show ?thesis
        using asm ok rm
        by (simp add: finishHandler_def Let_def os_RemoveAll_removes split: prod.splits)
    qed
  }
  {
    fix finalPath w1'
    assume "assembleChunks env w (f_uploadId r) (f_filename r) = (Inr finalPath, w1')
            \<and> Remove_err env = None"
    then show "temp (snd (finishHandler env w r)) finalPath = None"
      using ok by (simp add: finishHandler_def Let_def os_Remove_removes split: prod.splits)
  }
next
  assume "f_uploadId r = [] \<or> f_filename r = [] \<or> f_destination r = []"
  then show "finishHandler env w r = (HttpError ''Missing uploadId, filename, or destination'' 400, w)"
    by (auto simp: finishHandler_def Let_def)
qed

theorem finish_removes_session_and_artifact_witness:
  "finishHandler (env0\<lparr>client_Do := \<lambda>req. Inl ''connection reset''\<rparr>) two_chunks
      \<lparr>f_uploadId = ''s'', f_filename = ''a.bin'', f_userhash = [], f_destination = ''catbox'', f_time = []\<rparr>
     = (HttpError ''Upload failed: http request failed: connection reset'' 500,
        world0\<lparr>sent := [build_request ''https://catbox.moe/user/api.php'' ''catbox'' ''a.bin'' [] ''1h'' ''AB'']\<rparr>)
   \<and> finishHandler env0 two_chunks
      \<lparr>f_uploadId = ''s'', f_filename = ''a.bin'', f_userhash = [], f_destination = [], f_time = []\<rparr>
     = (HttpError ''Missing uploadId, filename, or destination'' 400, two_chunks)"
  using finish_removes_session_and_artifact[of
      "\<lparr>f_uploadId = ''s'', f_filename = ''a.bin'', f_userhash = [], f_destination = ''catbox'', f_time = []\<rparr>"
      "env0\<lparr>client_Do := \<lambda>req. Inl ''connection reset''\<rparr>" two_chunks]
    finish_removes_session_and_artifact[of
      "\<lparr>f_uploadId = ''s'', f_filename = ''a.bin'', f_userhash = [], f_destination = [], f_time = []\<rparr>"
      env0 two_chunks]
  by (simp add: eval_defs two_chunks_def)

text \<open>
  C2 as stated fails. A finish request without a file name is answered 400 before any
  \<^verbatim>\<open>defer\<close> is registered, and the chunks of the session stay. When the two removals
  fail (here \<^verbatim>\<open>os.RemoveAll\<close> cannot remove \<^verbatim>\<open>chunk_1\<close>), their errors are discarded, the
  request is answered with the URL, and \<^verbatim>\<open>chunk_1\<close> and the artifact stay. And when
  copying \<^verbatim>\<open>chunk_1\<close> into the artifact fails, \<^verbatim>\<open>assembleChunks\<close> returns the error
  without removing the file it created: the session directory is removed, the artifact
  with the bytes of \<^verbatim>\<open>chunk_0\<close> stays in \<^verbatim>\<open>/tmp/temp\<close> (\<^verbatim>\<open>directHandler\<close> registers
  \<^verbatim>\<open>os.Remove\<close> right after \<^verbatim>\<open>os.Create\<close> and has no such leak).
\<close>

theorem finish_leaves_files_behind:
  "finishHandler env0 two_chunks
      \<lparr>f_uploadId = ''s'', f_filename = [], f_userhash = [], f_destination = ''catbox'', f_time = []\<rparr>
     = (HttpError ''Missing uploadId, filename, or destination'' 400, two_chunks)
   \<and> uploads two_chunks ''s'' = Some [(''chunk_0'', File ''A''), (''chunk_1'', File ''B'')]
   \<and> finishHandler
        (env0\<lparr>Remove_err := Some ''remove /tmp/temp/u-a.bin: operation not permitted'',
              RemoveAll_err := Some [''chunk_1'']\<rparr>)
        two_chunks
        \<lparr>f_uploadId = ''s'', f_filename = ''a.bin'', f_userhash = [], f_destination = ''catbox'', f_time = []\<rparr>
     = (Json [(''url'', ''https://files.example/abc'')],
        world0\<lparr>uploads := [''s'' \<mapsto> [(''chunk_1'', File ''B'')]],
               temp := [''u-a.bin'' \<mapsto> ''AB''],
               db := [''sha:AB'' \<mapsto> (Some ''https://files.example/abc'', None)],
               sent := [build_request ''https://catbox.moe/user/api.php'' ''catbox'' ''a.bin'' [] ''1h'' ''AB'']\<rparr>)
   \<and> finishHandler
        (env0\<lparr>Copy_final_err := \<lambda>c. if c = ''chunk_1''
                 then Some (0, ''write /tmp/temp/u-a.bin: no space left on device'') else None\<rparr>)
        two_chunks
        \<lparr>f_uploadId = ''s'', f_filename = ''a.bin'', f_userhash = [], f_destination = ''catbox'', f_time = []\<rparr>
     = (HttpError ''error writing chunk chunk_1 to final file: write /tmp/temp/u-a.bin: no space left on device'' 500,
        world0\<lparr>temp := [''u-a.bin'' \<mapsto> ''A'']\<rparr>)"
  by (simp add: eval_defs two_chunks_def)

subsection \<open>The order of the chunks in the artifact\<close>

lemma chunk_less_iff:
  "chunk_less a b \<longleftrightarrow> \<not> unparseable a \<and> \<not> unparseable b \<and> chunk_key a < chunk_key b"
  by (auto simp: chunk_less_def unparseable_def chunk_key_def split: option.splits)

lemma sort_Slice_chunks_upto_12:
  "length names \<le> 12 \<Longrightarrow>
   sort_Slice pdq chunk_less names = sort_runs unparseable chunk_key [] names"
  using insertionSort_func_runs[of chunk_less unparseable chunk_key names]
  by (simp add: sort_Slice_def chunk_less_iff)

lemma write_temp_then_temp:
  "(write_temp n b w)\<lparr>temp := t\<rparr> = w\<lparr>temp := t\<rparr>"
  by (simp add: write_temp_def)

lemma copy_chunks_ok:
  assumes "\<forall>c. Open_chunk_err env c = None" and "\<forall>c. Copy_final_err env c = None"
    and "\<forall>c\<in>set cs. \<exists>b. map_of (session_dir w u) c = Some (File b)"
    and "temp w final = Some old"
  shows "copy_chunks env u final cs w
         = (Inr final, w\<lparr>temp := (temp w)(final \<mapsto> old @ concat (map (chunk_bytes (session_dir w u)) cs))\<rparr>)"
  using assms(3,4)
proof (induction cs arbitrary: w old)
  case Nil
  then show ?case by (simp add: map_upd_triv)
next
  case (Cons c cs)
  let ?b = "chunk_bytes (session_dir w u) c"
  have opn: "os_Open_chunk env w u c = Inr ?b"
    using Cons.prems(1) assms(1) by (auto simp: os_Open_chunk_def chunk_bytes_def)
  have t: "temp (write_temp final ?b w) final = Some (old @ ?b)"
    using Cons.prems(2) by (simp add: write_temp_def)
  have ih: "copy_chunks env u final cs (write_temp final ?b w)
      = (Inr final, (write_temp final ?b w)\<lparr>temp := (temp (write_temp final ?b w))
            (final \<mapsto> (old @ ?b) @ concat (map (chunk_bytes (session_dir (write_temp final ?b w) u)) cs))\<rparr>)"
    by (rule Cons.IH) (use Cons.prems t in simp_all)
  have tw: "temp (write_temp final ?b w) = (temp w)(final \<mapsto> old @ ?b)"
    using Cons.prems(2) by (simp add: write_temp_def)
  have "copy_chunks env u final (c # cs) w = copy_chunks env u final cs (write_temp final ?b w)"
    using opn assms(2) by simp
  also have "\<dots> = (Inr final, w\<lparr>temp := (temp w)(final \<mapsto> (old @ ?b) @ concat (map (chunk_bytes (session_dir w u)) cs))\<rparr>)"
    unfolding ih by (simp add: write_temp_then_temp tw)
  also have "\<dots> = (Inr final, w\<lparr>temp := (temp w)(final \<mapsto> old @ concat (map (chunk_bytes (session_dir w u)) (c # cs)))\<rparr>)"
    by simp
  finally show ?case .
qed

lemma chunk_names_files:
  assumes "distinct (map fst d)" and "c \<in> set (chunk_names (sort_key fst d))"
  shows "\<exists>b. map_of d c = Some (File b)"
proof -
  obtain nd where "(c, nd) \<in> set d" "nd \<noteq> Dir"
    using assms(2) by (auto simp: set_chunk_names)
  then show ?thesis
    using assms(1) by (cases nd) auto
qed

lemma assembleChunks_ok:
  assumes "uploads w uploadId = Some d" and "distinct (map fst d)" and "assemble_ok env"
    and "set (sort_Slice (pdqsort env) chunk_less (chunk_names (sort_key fst d)))
           \<subseteq> set (chunk_names (sort_key fst d))"
  shows "assembleChunks env w uploadId filename
         = (Inr (uuid_New env @ ''-'' @ filename),
            w\<lparr>temp := (temp w)(uuid_New env @ ''-'' @ filename \<mapsto>
                 concat (map (chunk_bytes d)
                   (sort_Slice (pdqsort env) chunk_less (chunk_names (sort_key fst d)))))\<rparr>)"
proof -
  let ?final = "uuid_New env @ ''-'' @ filename"
  let ?cs = "sort_Slice (pdqsort env) chunk_less (chunk_names (sort_key fst d))"
  let ?w1 = "w\<lparr>temp := (temp w)(?final \<mapsto> [])\<rparr>"
  have sd: "session_dir ?w1 uploadId = d"
    using assms(1) by (simp add: session_dir_def)
  have "copy_chunks env uploadId ?final ?cs ?w1
      = (Inr ?final, ?w1\<lparr>temp := (temp ?w1)(?final \<mapsto> [] @ concat (map (chunk_bytes (session_dir ?w1 uploadId)) ?cs))\<rparr>)"
  proof (rule copy_chunks_ok)
    show "\<forall>c\<in>set ?cs. \<exists>b. map_of (session_dir ?w1 uploadId) c = Some (File b)"
      unfolding sd using chunk_names_files[OF assms(2)] assms(4) by blast
  qed (use assms(3) in \<open>simp_all add: assemble_ok_def\<close>)
  then show ?thesis
    using assms(1,3) sd by (simp add: assembleChunks_def os_ReadDir_def Let_def assemble_ok_def)
qed

lemma successively_sort_key:
  "successively (\<lambda>a b. U a \<or> U b \<or> key a \<le> key b) (sort_key key run)"
proof -
  have "sorted_wrt (\<lambda>a b. key a \<le> key b) (sort_key key run)"
    using sorted_sort_key[of key run] by (simp add: sorted_map)
  then have "successively (\<lambda>a b. key a \<le> key b) (sort_key key run)"
    by (rule successively_if_sorted_wrt)
  then show ?thesis
    by (rule successively_mono) simp
qed

lemma successively_sort_runs:
  "successively (\<lambda>a b. U a \<or> U b \<or> key a \<le> key b) (sort_runs U key run xs)"
proof (induction xs arbitrary: run)
  case Nil
  show ?case by (simp add: successively_sort_key)
next
  case (Cons x xs)
  show ?case
  proof (cases "U x")
    case True
    then show ?thesis
      using Cons.IH[of "[]"]
      by (simp add: successively_append_iff successively_Cons successively_sort_key)
  next
    case False
    then show ?thesis using Cons.IH[of "run @ [x]"] by simp
  qed
qed

text \<open>
  What the insertion sort makes of the comparison in a session with at most 12 chunk
  entries and no failing system call (upload id and artifact name being single path
  elements): every chunk entry is copied into the artifact
  exactly once; an entry whose index does not parse stays at the position it has in the
  listing by name; and the entries with a parseable index are sorted only inside each
  stretch of the listing between two unparseable entries (\<open>sort_runs\<close>).
\<close>

lemma insertion_sort_between_unparseable_chunks:
  assumes "uploads w uploadId = Some d" and "distinct (map fst d)" and "assemble_ok env"
    and "length (chunk_names (sort_key fst d)) \<le> 12"
    and "single_element uploadId" and "single_element (uuid_New env @ ''-'' @ filename)"
  shows "let names = chunk_names (sort_key fst d);
             order = sort_runs unparseable chunk_key [] names;
             final = uuid_New env @ ''-'' @ filename
         in assembleChunks env w uploadId filename
              = (Inr final, w\<lparr>temp := (temp w)(final \<mapsto> concat (map (chunk_bytes d) order))\<rparr>)
            \<and> mset order = mset names
            \<and> map (\<lambda>n. if unparseable n then Some n else None) order
                = map (\<lambda>n. if unparseable n then Some n else None) names
            \<and> successively (\<lambda>a b. unparseable a \<or> unparseable b \<or> chunk_key a \<le> chunk_key b) order"
proof -
  let ?names = "chunk_names (sort_key fst d)"
  let ?order = "sort_runs unparseable chunk_key [] ?names"
  have srt: "sort_Slice (pdqsort env) chunk_less ?names = ?order"
    using assms(4) by (rule sort_Slice_chunks_upto_12)
  have ms: "mset ?order = mset ?names"
    by (simp add: mset_sort_runs)
  have "set ?order \<subseteq> set ?names"
    using ms by (metis mset_eq_setD subset_refl)
  then have asm: "assembleChunks env w uploadId filename
      = (Inr (uuid_New env @ ''-'' @ filename),
         w\<lparr>temp := (temp w)(uuid_New env @ ''-'' @ filename \<mapsto> concat (map (chunk_bytes d) ?order))\<rparr>)"
    using assembleChunks_ok[OF assms(1-3), of filename] srt by simp
  have sk: "map (\<lambda>n. if unparseable n then Some n else None) ?order
          = map (\<lambda>n. if unparseable n then Some n else None) ?names"
    using sort_runs_skeleton[of "[]" unparseable chunk_key ?names] by simp
  show ?thesis
    unfolding Let_def using asm ms sk successively_sort_runs[of unparseable chunk_key "[]" ?names]
    by simp
qed

text \<open>
  C1: the claim is that the chunks with a parseable index are assembled in ascending order
  of the index and those whose index does not parse after all of them. The comparison
  that \<^verbatim>\<open>assembleChunks\<close> hands to \<^verbatim>\<open>sort.Slice\<close> attempts the numeric order, but it
  answers false whenever one of the two indices does not parse, in both directions, so
  it is not the ordering \<^verbatim>\<open>sort.Slice\<close> asks for, and the code misses the claim. After
  the uploads with the indices \<^verbatim>\<open>2\<close>, \<^verbatim>\<open>10\<close> and \<^verbatim>\<open>1a\<close> (payloads \<^verbatim>\<open>A\<close>, \<^verbatim>\<open>B\<close>,
  \<^verbatim>\<open>X\<close>) the listing by name is \<^verbatim>\<open>chunk_10, chunk_1a, chunk_2\<close>; both comparisons that
  involve \<^verbatim>\<open>chunk_1a\<close> answer false, nothing is swapped, and the artifact that the finish
  request forwards is \<^verbatim>\<open>BXA\<close>: the unparseable chunk is not last, and index 10 comes
  before index 2. The claim gives \<^verbatim>\<open>ABX\<close>.
\<close>

theorem unparseable_chunk_is_not_sorted_last:
  "upload_chunks env0 world0 ''s'' [(''2'', ''A''), (''10'', ''B''), (''1a'', ''X'')]
     = world0\<lparr>uploads := [''s'' \<mapsto> out_of_order]\<rparr>
   \<and> chunk_index ''chunk_2'' = Some 2 \<and> chunk_index ''chunk_10'' = Some 10
   \<and> chunk_index ''chunk_1a'' = None
   \<and> chunk_names (sort_key fst out_of_order) = [''chunk_10'', ''chunk_1a'', ''chunk_2'']
   \<and> \<not> chunk_less ''chunk_1a'' ''chunk_10'' \<and> \<not> chunk_less ''chunk_2'' ''chunk_1a''
   \<and> \<not> chunk_less ''chunk_10'' ''chunk_1a'' \<and> \<not> chunk_less ''chunk_1a'' ''chunk_2''
   \<and> sort_Slice (pdqsort env0) chunk_less (chunk_names (sort_key fst out_of_order))
       = [''chunk_10'', ''chunk_1a'', ''chunk_2'']
   \<and> assembleChunks env0 (world0\<lparr>uploads := [''s'' \<mapsto> out_of_order]\<rparr>) ''s'' ''a.bin''
     = (Inr ''u-a.bin'', world0\<lparr>uploads := [''s'' \<mapsto> out_of_order], temp := [''u-a.bin'' \<mapsto> ''BXA'']\<rparr>)
   \<and> finishHandler env0 (world0\<lparr>uploads := [''s'' \<mapsto> out_of_order]\<rparr>)
        \<lparr>f_uploadId = ''s'', f_filename = ''a.bin'', f_userhash = [], f_destination = ''catbox'', f_time = []\<rparr>
     = (Json [(''url'', ''https://files.example/abc'')],
        world0\<lparr>db := [''sha:BXA'' \<mapsto> (Some ''https://files.example/abc'', None)],
               sent := [build_request ''https://catbox.moe/user/api.php'' ''catbox'' ''a.bin'' [] ''1h'' ''BXA'']\<rparr>)"
  by (simp add: eval_defs out_of_order_def upload_chunks_def chunk_upload_def)

subsection \<open>Chunk uploads in any order\<close>

lemma chunk_name_inj [simp]: "chunk_name i = chunk_name j \<longleftrightarrow> i = j"
  by (simp add: chunk_name_def)

lemma update_new_key:
  "k \<notin> fst ` set al \<Longrightarrow> AList.update k v al = al @ [(k, v)]"
  by (induction al) auto

lemma chunkHandler_stores:
  assumes "chunk_ok env" and "uploadId \<noteq> []" and "fst ib \<noteq> []"
    and "chunk_name (fst ib) \<notin> fst ` set (session_dir w uploadId)"
  shows "uploads (snd (chunkHandler env w (chunk_upload uploadId ib))) uploadId
         = Some (session_dir w uploadId @ [chunk_entry ib])"
proof -
  have sd: "session_dir (os_MkdirAll uploadId w) uploadId = session_dir w uploadId"
    by (simp add: os_MkdirAll_def session_dir_def split: option.splits)
  have nd: "map_of (session_dir w uploadId) (chunk_name (fst ib)) \<noteq> Some Dir"
    using assms(4) by (metis map_of_eq_None_iff option.distinct(1))
  have "uploads (write_chunk uploadId (chunk_name (fst ib)) (snd ib) (os_MkdirAll uploadId w)) uploadId
      = Some (session_dir w uploadId @ [chunk_entry ib])"
    using assms(4) by (simp add: write_chunk_def sd update_new_key chunk_entry_def)
  then show ?thesis
    using assms(1-3) sd nd
    by (simp add: chunkHandler_def chunk_upload_def chunk_ok_def Let_def os_Create_chunk_def)
qed

lemma upload_chunks_stores:
  assumes "chunk_ok env" and "uploadId \<noteq> []" and "\<forall>ib\<in>set ups. fst ib \<noteq> []"
    and "distinct (map fst ups)"
    and "\<forall>ib\<in>set ups. chunk_name (fst ib) \<notin> fst ` set (session_dir w uploadId)"
    and "ups \<noteq> []"
  shows "uploads (upload_chunks env w uploadId ups) uploadId
         = Some (session_dir w uploadId @ map chunk_entry ups)"
  using assms(3-6)
proof (induction ups arbitrary: w)
  case Nil
  then show ?case by simp
next
  case (Cons ib ups)
  let ?w1 = "snd (chunkHandler env w (chunk_upload uploadId ib))"
  have ne: "fst ib \<noteq> []" and new: "chunk_name (fst ib) \<notin> fst ` set (session_dir w uploadId)"
    using Cons.prems(1,3) by simp_all
  have step: "uploads ?w1 uploadId = Some (session_dir w uploadId @ [chunk_entry ib])"
    using assms(1,2) ne new by (rule chunkHandler_stores)
  have sd1: "session_dir ?w1 uploadId = session_dir w uploadId @ [chunk_entry ib]"
    using step by (simp add: session_dir_def)
  have unfold: "upload_chunks env w uploadId (ib # ups) = upload_chunks env ?w1 uploadId ups"
    by (simp add: upload_chunks_def)
  show ?case
  proof (cases "ups = []")
    case True
    then show ?thesis unfolding unfold using step by (simp add: upload_chunks_def)
  next
    case False
    have p1: "\<forall>ib\<in>set ups. fst ib \<noteq> []" and p2: "distinct (map fst ups)"
      using Cons.prems(1,2) by simp_all
    have p3: "\<forall>ib'\<in>set ups. chunk_name (fst ib') \<notin> fst ` set (session_dir ?w1 uploadId)"
    proof
      fix ib' assume in_ups: "ib' \<in> set ups"
      have "fst ib \<notin> fst ` set ups"
        using Cons.prems(2) by simp
      then have "fst ib' \<noteq> fst ib"
        using in_ups by (metis image_eqI)
      moreover have "chunk_name (fst ib') \<notin> fst ` set (session_dir w uploadId)"
        using Cons.prems(3) in_ups by simp
      ultimately show "chunk_name (fst ib') \<notin> fst ` set (session_dir ?w1 uploadId)"
        unfolding sd1 by (simp add: chunk_entry_def)
    qed
    have "uploads (upload_chunks env ?w1 uploadId ups) uploadId
        = Some (session_dir ?w1 uploadId @ map chunk_entry ups)"
      using p1 p2 p3 False by (rule Cons.IH)
    then show ?thesis
      unfolding unfold sd1 by simp
  qed
qed

lemma chunkHandler_frame:
  "temp (snd (chunkHandler env w r)) = temp w"
  "db (snd (chunkHandler env w r)) = db w"
  "sent (snd (chunkHandler env w r)) = sent w"
  by (auto simp: chunkHandler_def Let_def write_chunk_def os_MkdirAll_def split: option.splits)

lemma upload_chunks_temp: "temp (upload_chunks env w uploadId ups) = temp w"
  unfolding upload_chunks_def
  by (induction ups arbitrary: w) (simp_all add: chunkHandler_frame)


lemma chunk_index_chunk_name [simp]: "chunk_index (chunk_name i) = Atoi i"
  by (simp add: chunk_index_def TrimPrefix_def chunk_name_def)

lemma chunk_key_chunk_name [simp]: "chunk_key (chunk_name i) = index_of i"
  by (simp add: chunk_key_def index_of_def)

lemma chunk_less_chunk_name:
  "Atoi i \<noteq> None \<Longrightarrow> Atoi j \<noteq> None \<Longrightarrow>
   chunk_less (chunk_name i) (chunk_name j) \<longleftrightarrow> index_of i < index_of j"
  by (auto simp: chunk_less_def index_of_def)

lemma index_of_inj:
  "distinct (map (index_of \<circ> fst) ups) \<Longrightarrow> distinct (map fst ups)"
  by (metis distinct_map map_map)

lemma prefix_chunk_name [simp]: "prefix ''chunk_'' (chunk_name i)"
  by (simp add: chunk_name_def)

lemma chunk_entry_is_chunk:
  "e \<in> set (sort_key fst (map chunk_entry ups)) \<Longrightarrow> \<not> IsDir e \<and> prefix ''chunk_'' (fst e)"
proof -
  assume "e \<in> set (sort_key fst (map chunk_entry ups))"
  then obtain ib where "e = chunk_entry ib" by auto
  then show ?thesis by (simp add: chunk_entry_def IsDir_def)
qed

lemma chunk_names_entries:
  "chunk_names (sort_key fst (map chunk_entry ups)) = map fst (sort_key fst (map chunk_entry ups))"
proof -
  have "filter (\<lambda>e. \<not> IsDir e \<and> prefix ''chunk_'' (fst e)) (sort_key fst (map chunk_entry ups))
        = sort_key fst (map chunk_entry ups)"
    by (rule filter_True) (use chunk_entry_is_chunk in blast)
  then show ?thesis
    by (simp only: chunk_names_def)
qed

lemma mset_chunk_names_entries:
  "mset (chunk_names (sort_key fst (map chunk_entry ups))) = mset (map (chunk_name \<circ> fst) ups)"
proof -
  have "map fst (map chunk_entry ups) = map (chunk_name \<circ> fst) ups"
    by (simp add: chunk_entry_def comp_def)
  moreover have "mset (map fst (sort_key fst (map chunk_entry ups))) = mset (map fst (map chunk_entry ups))"
    by (metis mset_map mset_sort)
  ultimately show ?thesis by (simp only: chunk_names_entries)
qed

lemma chunk_bytes_entries:
  assumes "distinct (map fst ups)" and "ib \<in> set ups"
  shows "chunk_bytes (map chunk_entry ups) (chunk_name (fst ib)) = snd ib"
proof -
  have "distinct (map fst (map chunk_entry ups))"
    using assms(1) by (simp add: chunk_entry_def comp_def distinct_map inj_on_def)
  moreover have "(chunk_name (fst ib), File (snd ib)) \<in> set (map chunk_entry ups)"
    using assms(2) by (auto simp: chunk_entry_def image_iff)
  ultimately have "map_of (map chunk_entry ups) (chunk_name (fst ib)) = Some (File (snd ib))"
    by (rule map_of_is_SomeI)
  then show ?thesis by (simp add: chunk_bytes_def)
qed

lemma assemble_uploaded_chunks:
  assumes "uploads w uploadId = None" and "uploadId \<noteq> []" and "ups \<noteq> []"
    and "chunk_ok env" and "assemble_ok env'" and "sorts_by_key (pdqsort env')"
    and "\<forall>ib\<in>set ups. Atoi (fst ib) \<noteq> None"
    and "distinct (map (index_of \<circ> fst) ups)"
  shows "assembleChunks env' (upload_chunks env w uploadId ups) uploadId filename
           = (Inr (uuid_New env' @ ''-'' @ filename),
              (upload_chunks env w uploadId ups)
                \<lparr>temp := (temp w)(uuid_New env' @ ''-'' @ filename \<mapsto>
                    concat (map snd (sort_key (index_of \<circ> fst) ups)))\<rparr>)"
proof -
  let ?d = "map chunk_entry ups"
  let ?w' = "upload_chunks env w uploadId ups"
  let ?names = "chunk_names (sort_key fst ?d)"
  let ?k = "index_of \<circ> fst"
  let ?sorted = "map (chunk_name \<circ> fst) (sort_key ?k ups)"
  have dfst: "distinct (map fst ups)" using assms(8) by (rule index_of_inj)
  have nonempty: "\<forall>ib\<in>set ups. fst ib \<noteq> []"
    using assms(7) by (auto simp: Atoi_def)
  have sd: "session_dir w uploadId = []"
    using assms(1) by (simp add: session_dir_def)
  have up: "uploads ?w' uploadId = Some ?d"
    using upload_chunks_stores[OF assms(4) assms(2) nonempty dfst _ assms(3), of w] sd by simp
  have dd: "distinct (map fst ?d)"
    using dfst by (simp add: chunk_entry_def comp_def distinct_map inj_on_def)
  have names: "mset ?names = mset (map (chunk_name \<circ> fst) ups)"
    by (rule mset_chunk_names_entries)
  have setn: "set ?names = (chunk_name \<circ> fst) ` set ups"
    using mset_eq_setD[OF names] by simp
  have "mset (map chunk_key ?names) = image_mset chunk_key (mset ?names)"
    by simp
  also have "\<dots> = image_mset chunk_key (mset (map (chunk_name \<circ> fst) ups))"
    by (simp only: names)
  also have "\<dots> = mset (map chunk_key (map (chunk_name \<circ> fst) ups))"
    by (simp add: multiset.map_comp)
  also have "map chunk_key (map (chunk_name \<circ> fst) ups) = map ?k ups"
    by simp
  finally have dk: "distinct (map chunk_key ?names)"
    using assms(8) mset_eq_imp_distinct_iff by blast
  have lt: "chunk_less a b \<longleftrightarrow> chunk_key a < chunk_key b"
    if a: "a \<in> set ?names" and b: "b \<in> set ?names" for a b
  proof -
    have "a \<in> (chunk_name \<circ> fst) ` set ups" "b \<in> (chunk_name \<circ> fst) ` set ups"
      using a b unfolding setn by this+
    then obtain ia ib where "ia \<in> set ups" "a = (chunk_name \<circ> fst) ia"
      "ib \<in> set ups" "b = (chunk_name \<circ> fst) ib"
      by blast
    then have ia: "ia \<in> set ups" "a = chunk_name (fst ia)"
      and ib: "ib \<in> set ups" "b = chunk_name (fst ib)"
      by simp_all
    have "Atoi (fst ia) \<noteq> None" "Atoi (fst ib) \<noteq> None"
      using assms(7) ia(1) ib(1) by auto
    then show ?thesis
      unfolding ia(2) ib(2) by (simp add: chunk_less_chunk_name)
  qed
  have s1: "sort_Slice (pdqsort env') chunk_less ?names = sort_key chunk_key ?names"
    using assms(6) lt dk by (rule sort_Slice_by_distinct_key)
  have s2: "?sorted = sort_key chunk_key ?names"
  proof (rule sorted_by_distinct_key_unique)
    show "mset ?sorted = mset ?names"
      unfolding names by simp
    have "map chunk_key ?sorted = map ?k (sort_key ?k ups)" by simp
    then show "sorted (map chunk_key ?sorted)" by (simp only: sorted_sort_key)
    show "distinct (map chunk_key ?names)" by (rule dk)
  qed
  have sub: "set (sort_Slice (pdqsort env') chunk_less ?names) \<subseteq> set ?names"
    unfolding s1 by simp
  have bytes: "map (chunk_bytes ?d) ?sorted = map snd (sort_key ?k ups)"
    using chunk_bytes_entries[OF dfst] by (simp add: comp_def)
  have "assembleChunks env' ?w' uploadId filename
      = (Inr (uuid_New env' @ ''-'' @ filename),
         ?w'\<lparr>temp := (temp ?w')(uuid_New env' @ ''-'' @ filename \<mapsto>
             concat (map (chunk_bytes ?d) (sort_Slice (pdqsort env') chunk_less ?names)))\<rparr>)"
    using up dd assms(5) sub by (rule assembleChunks_ok)
  then show ?thesis
    unfolding s1 s2[symmetric] bytes by (simp only: upload_chunks_temp)
qed


lemma sort_key_permutation:
  fixes k :: "'a \<Rightarrow> int"
  assumes "mset ups' = mset ups" and "distinct (map k ups)"
  shows "sort_key k ups' = sort_key k ups"
proof (rule sorted_by_distinct_key_unique)
  show "mset (sort_key k ups') = mset ups" using assms(1) by simp
  show "sorted (map k (sort_key k ups'))" by (rule sorted_sort_key)
  show "distinct (map k ups)" by (rule assms(2))
qed

text \<open>
  Uploads in any order, for names that are single path elements. In a new session whose
  uploaded chunks carry distinct parseable integer indices (every upload and the
  assembly running without a failing system call), the artifact holds the bytes of the
  chunks concatenated in ascending order of the numeric index, and any other arrival
  order of the same uploads gives the same files in \<^verbatim>\<open>/tmp/temp\<close>. The upload id and the
  name of the artifact are single path elements here, so that the session directory and
  the artifact are the files the store of the model takes them for.
\<close>

lemma chunks_assemble_in_index_order:
  assumes "uploads w uploadId = None" and "single_element uploadId" and "ups \<noteq> []"
    and "chunk_ok env" and "assemble_ok env'" and "sorts_by_key (pdqsort env')"
    and "\<forall>ib\<in>set ups. Atoi (fst ib) \<noteq> None"
    and "distinct (map (index_of \<circ> fst) ups)"
    and "single_element (uuid_New env' @ ''-'' @ filename)"
  shows "assembleChunks env' (upload_chunks env w uploadId ups) uploadId filename
           = (Inr (uuid_New env' @ ''-'' @ filename),
              (upload_chunks env w uploadId ups)
                \<lparr>temp := (temp w)(uuid_New env' @ ''-'' @ filename \<mapsto>
                    concat (map snd (sort_key (index_of \<circ> fst) ups)))\<rparr>)
         \<and> (\<forall>ups'. mset ups' = mset ups \<longrightarrow>
               temp (snd (assembleChunks env' (upload_chunks env w uploadId ups') uploadId filename))
                 = temp (snd (assembleChunks env' (upload_chunks env w uploadId ups) uploadId filename)))"
proof (intro conjI allI impI)
  have id: "uploadId \<noteq> []"
    using assms(2) by (simp add: single_element_def)
  show 1: "assembleChunks env' (upload_chunks env w uploadId ups) uploadId filename
           = (Inr (uuid_New env' @ ''-'' @ filename),
              (upload_chunks env w uploadId ups)
                \<lparr>temp := (temp w)(uuid_New env' @ ''-'' @ filename \<mapsto>
                    concat (map snd (sort_key (index_of \<circ> fst) ups)))\<rparr>)"
    using assms(1) id assms(3-8) by (rule assemble_uploaded_chunks)
  fix ups' :: "(string \<times> string) list"
  assume perm: "mset ups' = mset ups"
  have sets: "set ups' = set ups" using perm by (rule mset_eq_setD)
  have ne: "ups' \<noteq> []" using perm assms(3) by auto
  have parse: "\<forall>ib\<in>set ups'. Atoi (fst ib) \<noteq> None" using assms(7) sets by simp
  have "mset (map (index_of \<circ> fst) ups') = mset (map (index_of \<circ> fst) ups)"
    using perm by simp
  then have dist: "distinct (map (index_of \<circ> fst) ups')"
    using assms(8) mset_eq_imp_distinct_iff by blast
  have 2: "assembleChunks env' (upload_chunks env w uploadId ups') uploadId filename
           = (Inr (uuid_New env' @ ''-'' @ filename),
              (upload_chunks env w uploadId ups')
                \<lparr>temp := (temp w)(uuid_New env' @ ''-'' @ filename \<mapsto>
                    concat (map snd (sort_key (index_of \<circ> fst) ups')))\<rparr>)"
    using assms(1) id ne assms(4,5,6) parse dist by (rule assemble_uploaded_chunks)
  have "sort_key (index_of \<circ> fst) ups' = sort_key (index_of \<circ> fst) ups"
    using perm assms(8) by (rule sort_key_permutation)
  then show "temp (snd (assembleChunks env' (upload_chunks env w uploadId ups') uploadId filename))
                 = temp (snd (assembleChunks env' (upload_chunks env w uploadId ups) uploadId filename))"
    unfolding 1 2 by simp
qed

text \<open>
  The scenario of the specification: the indices 1, 0, 2 with the payloads \<^verbatim>\<open>B\<close>,
  \<^verbatim>\<open>A\<close>, \<^verbatim>\<open>C\<close> assemble to \<^verbatim>\<open>ABC\<close>. And the indices 10 and 9, which the listing by
  name gives as \<^verbatim>\<open>chunk_10, chunk_9\<close>, assemble in the order 9, 10.
\<close>

lemma chunks_assemble_in_index_order_scenarios:
  "assembleChunks env0 (upload_chunks env0 world0 ''s'' [(''1'', ''B''), (''0'', ''A''), (''2'', ''C'')])
      ''s'' ''a.bin''
     = (Inr ''u-a.bin'',
        world0\<lparr>uploads := [''s'' \<mapsto> [(''chunk_1'', File ''B''), (''chunk_0'', File ''A''), (''chunk_2'', File ''C'')]],
               temp := [''u-a.bin'' \<mapsto> ''ABC'']\<rparr>)
   \<and> assembleChunks env0 (upload_chunks env0 world0 ''s'' [(''10'', ''B''), (''9'', ''A'')])
      ''s'' ''a.bin''
     = (Inr ''u-a.bin'',
        world0\<lparr>uploads := [''s'' \<mapsto> [(''chunk_10'', File ''B''), (''chunk_9'', File ''A'')]],
               temp := [''u-a.bin'' \<mapsto> ''AB'']\<rparr>)"
  using chunks_assemble_in_index_order[of world0 "''s''" "[(''1'', ''B''), (''0'', ''A''), (''2'', ''C'')]"
      env0 env0 "''a.bin''"] sorts_by_key_insertionSort_func[where ?'a = string]
  by (simp add: eval_defs upload_chunks_def chunk_upload_def chunk_ok_def assemble_ok_def index_of_def
      single_element_def)

subsection \<open>A file name that leads out of the temporary directory\<close>

text \<open>
  C3: the claim is that in a session whose chunks carry distinct parseable indices the
  artifact holds the bytes of the chunks in ascending order of the index. The code
  builds the path of the artifact from the file name of the finish request as it comes:
  \<^verbatim>\<open>finalPath := filepath.Join(tempDir, <uuid>-<filename>)\<close>, which cleans the path. With
  the chunks 0 (\<^verbatim>\<open>A\<close>) and 1 (\<^verbatim>\<open>B\<close>) in the session \<^verbatim>\<open>s\<close> and the file name
  \<^verbatim>\<open>x/../../uploads/s/chunk_0\<close>, the path of the artifact is the path of \<^verbatim>\<open>chunk_0\<close>
  itself. \<^verbatim>\<open>os.Create(finalPath)\<close> comes after \<^verbatim>\<open>os.ReadDir\<close> has listed the two chunks and
  truncates \<^verbatim>\<open>chunk_0\<close>; the loop then copies the empty \<^verbatim>\<open>chunk_0\<close> and \<^verbatim>\<open>chunk_1\<close> into
  it, and the artifact that is forwarded is \<^verbatim>\<open>B\<close>, where the claim gives \<^verbatim>\<open>AB\<close>, with no
  failing call. \<^verbatim>\<open>directHandler\<close> names its file by the UUID and
  \<^verbatim>\<open>filepath.Ext(header.Filename)\<close>, which holds no separator, and stays in \<^verbatim>\<open>/tmp/temp\<close>.
  The theorem evaluates the uploads, the listing and the two paths at this input; what
  \<^verbatim>\<open>os.Create\<close> does to a file that is already there is the operating system's, and the
  store above, which keeps \<^verbatim>\<open>/tmp/temp\<close> apart from the sessions, does not show it.
\<close>

theorem artifact_path_is_path_of_chunk:
  "upload_chunks env0 world0 ''s'' [(''0'', ''A''), (''1'', ''B'')] = two_chunks
   \<and> chunk_index ''chunk_0'' = Some 0 \<and> chunk_index ''chunk_1'' = Some 1
   \<and> os_ReadDir env0 two_chunks ''s'' = Inr [(''chunk_0'', File ''A''), (''chunk_1'', File ''B'')]
   \<and> final_path env0 ''x/../../uploads/s/chunk_0'' = ''/tmp/uploads/s/chunk_0''
   \<and> chunk_path ''s'' ''chunk_0'' = ''/tmp/uploads/s/chunk_0''
   \<and> final_path env0 ''x/../../uploads/s/chunk_0'' = chunk_path ''s'' ''chunk_0''"
  by (simp add: eval_defs two_chunks_def upload_chunks_def chunk_upload_def
      final_path_def chunk_path_def chunk_dir_def filepath_Join_def filepath_Clean_def
      uploadsDir_def tempDir_def)

end
